theory Spec2Isabelle
  imports Main "HOL-Library.Code_Target_Nat"
begin

section \<open>Python strings\<close>

text \<open>
  A Python \<open>str\<close> is modelled by its UTF-8 encoding, a \<open>string\<close> of bytes.
  \<open>chars\<close> splits the encoding into its code points (a leading byte with the
  continuation bytes that follow it): \<open>py_len\<close> is \<open>len\<close>, the number of code points,
  and \<open>strip\<close> removes exactly the white space of \<open>str.strip\<close>, the code points for
  which \<open>str.isspace\<close> holds. Equality, \<open>startswith\<close> and \<open>in\<close> are the same on
  the encoding as on the code points.

  \<open>str.lower\<close> belongs to the Python library and rests on its Unicode case tables; the
  functions that call it take it as their parameter \<open>lower\<close>. \<open>ascii_lower\<close> maps
  \<open>A..Z\<close> to \<open>a..z\<close> and agrees with it on ASCII text; it stands for it where a page
  of ASCII texts is evaluated.

  \<open>print\<close> and logger calls have no effect on any value and are left out.
\<close>

definition is_cont :: "char \<Rightarrow> bool" where
  "is_cont c = (let n = (of_char c :: nat) in 128 \<le> n \<and> n < 192)"

fun chars :: "string \<Rightarrow> string list" where
  "chars [] = []"
| "chars (c # cs) =
     (case chars cs of
        [] \<Rightarrow> [[c]]
      | g # gs \<Rightarrow> if is_cont (hd g) then (c # g) # gs else [c] # g # gs)"

definition py_len :: "string \<Rightarrow> nat" where
  "py_len s = length (chars s)"

definition bytes :: "nat list \<Rightarrow> string" where
  "bytes ns = map char_of ns"

text \<open>
  The white space of Python: U+0009..U+000D, U+001C..U+0020, U+0085, U+00A0, U+1680,
  U+2000..U+200A, U+2028, U+2029, U+202F, U+205F and U+3000.
\<close>

definition whitespace :: "string list" where
  "whitespace =
     map (\<lambda>n. bytes [n]) [9, 10, 11, 12, 13, 28, 29, 30, 31, 32] @
     [bytes [194, 133], bytes [194, 160], bytes [225, 154, 128]] @
     map (\<lambda>n. bytes [226, 128, n]) [128, 129, 130, 131, 132, 133, 134, 135, 136, 137, 138,
                                        168, 169, 175] @
     [bytes [226, 129, 159], bytes [227, 128, 128]]"

definition is_space :: "string \<Rightarrow> bool" where
  "is_space ch = (ch \<in> set whitespace)"

definition strip :: "string \<Rightarrow> string" where
  "strip s = concat (rev (dropWhile is_space (rev (dropWhile is_space (chars s)))))"

definition lower_char :: "char \<Rightarrow> char" where
  "lower_char c = (let n = (of_char c :: nat) in if 65 \<le> n \<and> n \<le> 90 then char_of (n + 32) else c)"

definition ascii_lower :: "string \<Rightarrow> string" where
  "ascii_lower s = map lower_char s"

fun startswith :: "string \<Rightarrow> string \<Rightarrow> bool" where
  "startswith s [] = True"
| "startswith [] (p # ps) = False"
| "startswith (c # cs) (p # ps) = (c = p \<and> startswith cs ps)"

text \<open>\<open>contains s sub\<close> is Python's \<open>sub in s\<close> on strings.\<close>

fun contains :: "string \<Rightarrow> string \<Rightarrow> bool" where
  "contains [] sub = (sub = [])"
| "contains (c # cs) sub = (startswith (c # cs) sub \<or> contains cs sub)"

section \<open>The page as an environment\<close>

text \<open>
  The Playwright page, the browser and the LLM client are outside the program. Every call
  the program makes on them is an \<open>action\<close>; the environment answers an action from the
  history of the actions made so far, with a \<open>response\<close> and the time the call took in
  milliseconds. Element handles are numbers. The state the program threads is the history
  (\<open>trace\<close>, oldest first) and the wall clock in milliseconds.
\<close>

type_synonym handle = nat

datatype action =
    Makedirs string
  | UrlParse string
  | LaunchBrowser
  | NewContext
  | NewPage
  | CloseBrowser
  | Goto string nat
  | WaitForLoadState string nat
  | WaitForTimeout nat
  | Screenshot string
  | QuerySelector string
  | QuerySelectorAll string
  | WaitForSelector string nat
  | ElemQueryAll handle string
  | InnerText handle
  | IsVisible handle
  | IsEnabled handle
  | Click handle
  | SelectText handle
  | TypeText handle string nat
  | KeyPress string
  | GetLLM
  | ChatCompletion string

datatype response =
    Raise
  | Done
  | Handle "handle option"
  | Handles "handle list"
  | Flag bool
  | Text string
  | Choices "string option option list"

type_synonym env = "action list \<Rightarrow> action \<Rightarrow> response \<times> nat"

record pstate =
  trace :: "action list"
  clock :: nat

text \<open>
  An exception is either raised by an external call (\<open>Raised a\<close>) or by a \<open>raise\<close>
  statement of the program with its message.
\<close>

datatype exn = Raised action | Failure string

type_synonym 'a io = "pstate \<Rightarrow> (exn + 'a) \<times> pstate"

definition call :: "env \<Rightarrow> action \<Rightarrow> pstate \<Rightarrow> response \<times> pstate" where
  "call env a s =
     (case env (trace s) a of
        (r, d) \<Rightarrow> (r, \<lparr>trace = trace s @ [a], clock = clock s + d\<rparr>))"

text \<open>
  The typed calls. A response of the wrong shape is an exception, as is \<open>Raise\<close>; a call
  made for its effect succeeds on any other response.
\<close>

definition page_do :: "env \<Rightarrow> action \<Rightarrow> unit io" where
  "page_do env a s =
     (case call env a s of (Raise, s') \<Rightarrow> (Inl (Raised a), s') | (_, s') \<Rightarrow> (Inr (), s'))"

definition page_handle :: "env \<Rightarrow> action \<Rightarrow> handle option io" where
  "page_handle env a s =
     (case call env a s of (Handle h, s') \<Rightarrow> (Inr h, s') | (_, s') \<Rightarrow> (Inl (Raised a), s'))"

definition page_handles :: "env \<Rightarrow> action \<Rightarrow> handle list io" where
  "page_handles env a s =
     (case call env a s of (Handles hs, s') \<Rightarrow> (Inr hs, s') | (_, s') \<Rightarrow> (Inl (Raised a), s'))"

definition page_flag :: "env \<Rightarrow> action \<Rightarrow> bool io" where
  "page_flag env a s =
     (case call env a s of (Flag b, s') \<Rightarrow> (Inr b, s') | (_, s') \<Rightarrow> (Inl (Raised a), s'))"

definition page_text :: "env \<Rightarrow> action \<Rightarrow> string io" where
  "page_text env a s =
     (case call env a s of (Text t, s') \<Rightarrow> (Inr t, s') | (_, s') \<Rightarrow> (Inl (Raised a), s'))"

text \<open>\<open>page.wait_for_timeout(ms)\<close> lasts \<open>ms\<close> plus what the environment adds.\<close>

definition wait_for_timeout :: "env \<Rightarrow> nat \<Rightarrow> unit io" where
  "wait_for_timeout env ms s =
     (case page_do env (WaitForTimeout ms) s of
        (Inl e, s') \<Rightarrow> (Inl e, s')
      | (Inr u, s') \<Rightarrow> (Inr (), s'\<lparr>clock := clock s' + ms\<rparr>))"

text \<open>Sequencing, \<open>try/except Exception\<close> and \<open>try/finally\<close>.\<close>

definition return :: "'a \<Rightarrow> 'a io" where
  "return x s = (Inr x, s)"

definition throw :: "exn \<Rightarrow> 'a io" where
  "throw e s = (Inl e, s)"

definition bind :: "'a io \<Rightarrow> ('a \<Rightarrow> 'b io) \<Rightarrow> 'b io" where
  "bind m f s = (case m s of (Inl e, s') \<Rightarrow> (Inl e, s') | (Inr x, s') \<Rightarrow> f x s')"

definition try_except :: "'a io \<Rightarrow> (exn \<Rightarrow> 'a io) \<Rightarrow> 'a io" where
  "try_except m h s = (case m s of (Inl e, s') \<Rightarrow> h e s' | (Inr x, s') \<Rightarrow> (Inr x, s'))"

definition try_finally :: "'a io \<Rightarrow> unit io \<Rightarrow> 'a io" where
  "try_finally m c s =
     (case m s of
        (r, s') \<Rightarrow> (case c s' of (Inl e, s'') \<Rightarrow> (Inl e, s'') | (Inr u, s'') \<Rightarrow> (r, s'')))"

text \<open>A block of statements.\<close>

fun steps :: "unit io list \<Rightarrow> unit io" where
  "steps [] = return ()"
| "steps (m # ms) = bind m (\<lambda>u. steps ms)"

section \<open>Result table extractor\<close>

record keyword_data =
  keyword :: string
  monthly_volume :: string
  cpc :: string
  competition :: string

definition header_lexicon :: "string list" where
  "header_lexicon = [''keyword'', ''search term'', ''phrase'', ''query'']"

text \<open>The placeholders are \<open>-\<close>, the en dash and the em dash (in UTF-8) and \<open>N/A\<close>.\<close>

definition placeholders :: "string list" where
  "placeholders =
     [''-'', [char_of (226::nat), char_of (128::nat), char_of (147::nat)],
      [char_of (226::nat), char_of (128::nat), char_of (148::nat)], ''N/A'']"

definition is_header_row :: "(string \<Rightarrow> string) \<Rightarrow> string list \<Rightarrow> bool" where
  "is_header_row lower cell_texts = (\<exists>header \<in> set header_lexicon. contains (lower (hd cell_texts)) header)"

definition is_empty_row :: "string list \<Rightarrow> bool" where
  "is_empty_row cell_texts =
     (\<not> (\<exists>cell_text \<in> set cell_texts. strip cell_text \<noteq> [] \<and> strip cell_text \<notin> set placeholders))"

definition make_keyword_data :: "string list \<Rightarrow> keyword_data" where
  "make_keyword_data cell_texts =
     \<lparr>keyword = (if length cell_texts > 0 then cell_texts ! 0 else []),
      monthly_volume = (if length cell_texts > 1 then cell_texts ! 1 else ''N/A''),
      cpc = (if length cell_texts > 2 then cell_texts ! 2 else ''N/A''),
      competition = (if length cell_texts > 3 then cell_texts ! 3 else ''N/A'')\<rparr>"

definition meaningful :: "(string \<Rightarrow> string) \<Rightarrow> keyword_data \<Rightarrow> bool" where
  "meaningful lower kd =
     (keyword kd \<noteq> [] \<and> py_len (keyword kd) > 1 \<and>
      lower (keyword kd) \<notin> set [''keyword'', ''search term'', ''phrase''])"

text \<open>
  The body of the row loop once the cell texts are read (a row always has a cell here):
  the new \<open>header_found\<close> and the new \<open>keywords\<close>.
\<close>

definition row_step :: "(string \<Rightarrow> string) \<Rightarrow> string list \<Rightarrow> bool \<Rightarrow> keyword_data list \<Rightarrow> bool \<times> keyword_data list" where
  "row_step lower cell_texts header_found keywords =
     (if is_header_row lower cell_texts then (True, keywords)
      else if is_empty_row cell_texts then (header_found, keywords)
      else if header_found \<and> length cell_texts \<ge> 2 then
        (let keyword_data = make_keyword_data cell_texts
         in if meaningful lower keyword_data then (header_found, keywords @ [keyword_data])
            else (header_found, keywords))
      else (header_found, keywords))"

text \<open>\<open>[cell.inner_text().strip() for cell in cells]\<close>\<close>

fun read_cells :: "env \<Rightarrow> handle list \<Rightarrow> string list io" where
  "read_cells env [] s = (Inr [], s)"
| "read_cells env (cell # cells) s =
     (case page_text env (InnerText cell) s of
        (Inl e, s1) \<Rightarrow> (Inl e, s1)
      | (Inr t, s1) \<Rightarrow>
          (case read_cells env cells s1 of
             (Inl e, s2) \<Rightarrow> (Inl e, s2)
           | (Inr ts, s2) \<Rightarrow> (Inr (strip t # ts), s2)))"

text \<open>
  The loops return the \<open>keywords\<close> list, which the source extends in place, and the
  exception that ended them, if any: the handler of \<open>extract_keywords_from_table\<close>
  returns the list as it is then.
\<close>

fun rows_loop :: "(string \<Rightarrow> string) \<Rightarrow> env \<Rightarrow> handle list \<Rightarrow> bool \<Rightarrow> keyword_data list \<Rightarrow> pstate
    \<Rightarrow> (exn option \<times> keyword_data list) \<times> pstate" where
  "rows_loop lower env [] header_found keywords s = ((None, keywords), s)"
| "rows_loop lower env (row # rows) header_found keywords s =
     (case page_handles env (ElemQueryAll row ''td, th'') s of
        (Inl e, s1) \<Rightarrow> ((Some e, keywords), s1)
      | (Inr cells, s1) \<Rightarrow>
          if length cells = 0 then rows_loop lower env rows header_found keywords s1
          else
            (case read_cells env cells s1 of
               (Inl e, s2) \<Rightarrow> ((Some e, keywords), s2)
             | (Inr cell_texts, s2) \<Rightarrow>
                 (case row_step lower cell_texts header_found keywords of
                    (header_found', keywords') \<Rightarrow> rows_loop lower env rows header_found' keywords' s2)))"

fun tables_loop :: "(string \<Rightarrow> string) \<Rightarrow> env \<Rightarrow> handle list \<Rightarrow> keyword_data list \<Rightarrow> pstate
    \<Rightarrow> (exn option \<times> keyword_data list) \<times> pstate" where
  "tables_loop lower env [] keywords s = ((None, keywords), s)"
| "tables_loop lower env (table # tables) keywords s =
     (case page_handles env (ElemQueryAll table ''tr'') s of
        (Inl e, s1) \<Rightarrow> ((Some e, keywords), s1)
      | (Inr rows, s1) \<Rightarrow>
          (case rows_loop lower env rows False keywords s1 of
             ((Some e, keywords'), s2) \<Rightarrow> ((Some e, keywords'), s2)
           | ((None, keywords'), s2) \<Rightarrow> tables_loop lower env tables keywords' s2))"

definition extract_keywords_from_table :: "(string \<Rightarrow> string) \<Rightarrow> env \<Rightarrow> pstate \<Rightarrow> keyword_data list \<times> pstate" where
  "extract_keywords_from_table lower env s =
     (case page_handles env (QuerySelectorAll ''table'') s of
        (Inl e, s1) \<Rightarrow> ([], s1)
      | (Inr tables, s1) \<Rightarrow>
          (case tables_loop lower env tables [] s1 of ((r, keywords), s2) \<Rightarrow> (keywords, s2)))"

section \<open>LLM agent\<close>

definition get_llm :: "env \<Rightarrow> unit io" where
  "get_llm env = page_do env GetLLM"

definition generate_completion :: "env \<Rightarrow> string \<Rightarrow> string io" where
  "generate_completion env prompt s =
     (if prompt = [] \<or> strip prompt = [] then (Inl (Failure ''Prompt cannot be empty''), s)
      else
        (case call env (ChatCompletion prompt) s of
           (Choices choices, s') \<Rightarrow>
             (case choices of
                [] \<Rightarrow> (Inl (Failure ''No completion choices returned from API''), s')
              | None # rest \<Rightarrow> (Inl (Failure ''No message in completion choice''), s')
              | Some None # rest \<Rightarrow> (Inl (Failure ''Empty content in completion''), s')
              | Some (Some content) # rest \<Rightarrow>
                  if content = [] then (Inl (Failure ''Empty content in completion''), s')
                  else (Inr (strip content), s'))
         | (r, s') \<Rightarrow> (Inl (Raised (ChatCompletion prompt)), s')))"

definition valid_industries :: "string list" where
  "valid_industries =
     [''Automotive'', ''Beauty & Personal Care'', ''Business Services'', ''Education'',
      ''Finance & Insurance'', ''Health & Medical'', ''Home & Garden'', ''Legal Services'',
      ''Real Estate'', ''Retail & E-commerce'', ''Technology'', ''Travel & Hospitality'',
      ''Food & Beverage'', ''Entertainment'', ''Non-profit'', ''Construction'',
      ''Manufacturing'', ''Agriculture'', ''Sports & Recreation'']"

fun join :: "string \<Rightarrow> string list \<Rightarrow> string" where
  "join sep [] = []"
| "join sep [x] = x"
| "join sep (x # y # ys) = x @ sep @ join sep (y # ys)"

definition nl :: string where
  "nl = [char_of (10::nat)]"

definition industry_prompt :: "string \<Rightarrow> string" where
  \<open>industry_prompt industry =
     ''Given the user's industry "'' @ strip industry @
     ''", map it to the closest matching option from WordStream's industry dropdown.'' @ nl @
     ''    '' @ nl @
     ''    Valid WordStream industries:'' @ nl @
     ''    '' @ join nl (map (\<lambda>ind. ''- '' @ ind) valid_industries) @ nl @
     ''    '' @ nl @
     ''    Rules:'' @ nl @
     ''    1. Return only the exact matching industry name from the list above'' @ nl @
     ''    2. If no close match exists, return "Business Services"'' @ nl @
     ''    3. Do not include any explanation or additional text'' @ nl @
     ''    4. The response must be one of the valid industries listed above'' @ nl @
     ''    '' @ nl @
     ''    Industry to map: "'' @ strip industry @ ''" ''\<close>

definition map_industry_to_wordstream :: "env \<Rightarrow> string \<Rightarrow> string io" where
  "map_industry_to_wordstream env industry =
     (if industry = [] \<or> strip industry = [] then return ''Business Services''
      else
        try_except
          (bind (generate_completion env (industry_prompt industry)) (\<lambda>mapped_industry.
             if mapped_industry \<in> set valid_industries then return mapped_industry
             else return ''Business Services''))
          (\<lambda>e. return ''Business Services''))"

text \<open>
  A value of the configuration document, by what the program asks of it: a string; a list,
  with its elements and its \<open>str\<close>; or any other value (number, boolean, null,
  mapping), with its truth value and its \<open>str\<close>.
\<close>

datatype cval = CStr string | CList "cval list" string | COther bool string

type_synonym config = "string \<Rightarrow> cval option"

fun truthy :: "cval \<Rightarrow> bool" where
  "truthy (CStr t) = (t \<noteq> [])"
| "truthy (CList l r) = (l \<noteq> [])"
| "truthy (COther b r) = b"

fun py_str :: "cval \<Rightarrow> string" where
  "py_str (CStr t) = t"
| "py_str (CList l r) = r"
| "py_str (COther b r) = r"

record form_data =
  website :: string
  industry :: string
  location :: string

definition industry_keys :: "string list" where
  "industry_keys = [''Industry'', ''industry'', ''INDUSTRY'', ''business_type'', ''sector'']"

definition location_keys :: "string list" where
  "location_keys = [''locations'', ''location'', ''address'', ''city'', ''primary_location'']"

text \<open>The industry loop: the mapped label of the first key that has a true value.\<close>

fun industry_loop :: "env \<Rightarrow> config \<Rightarrow> string list \<Rightarrow> pstate \<Rightarrow> string option \<times> pstate" where
  "industry_loop env config [] s = (None, s)"
| "industry_loop env config (key # keys) s =
     (case config key of
        None \<Rightarrow> industry_loop env config keys s
      | Some v \<Rightarrow>
          if truthy v then
            (case map_industry_to_wordstream env (py_str v) s of
               (Inr label, s') \<Rightarrow> (Some label, s')
             | (Inl e, s') \<Rightarrow> industry_loop env config keys s')
          else industry_loop env config keys s)"

fun location_loop :: "config \<Rightarrow> string list \<Rightarrow> string option" where
  "location_loop config [] = None"
| "location_loop config (key # keys) =
     (case config key of
        None \<Rightarrow> location_loop config keys
      | Some location_value \<Rightarrow>
          if truthy location_value then
            (case location_value of
               CList l r \<Rightarrow> Some (strip (py_str (hd l)))
             | CStr t \<Rightarrow> if strip t \<noteq> [] then Some (strip t) else location_loop config keys
             | COther b r \<Rightarrow> location_loop config keys)
          else location_loop config keys)"

definition extract_form_data :: "env \<Rightarrow> config \<Rightarrow> form_data io" where
  "extract_form_data env config s =
     (let website' = (case config ''brand_website'' of Some (CStr t) \<Rightarrow> strip t | _ \<Rightarrow> [])
      in case industry_loop env config industry_keys s of
           (found, s') \<Rightarrow>
             (Inr \<lparr>website = website',
                   industry = (case found of None \<Rightarrow> ''Business Services'' | Some label \<Rightarrow> label),
                   location = (case location_loop config location_keys of None \<Rightarrow> [] | Some l \<Rightarrow> l)\<rparr>,
              s'))"

section \<open>Field fillers\<close>

text \<open>
  The selector loop of the three fillers: each candidate is waited for in turn
  (\<open>state="visible"\<close>); an exception of the wait is swallowed and the next one is tried.
\<close>

fun first_visible :: "env \<Rightarrow> string list \<Rightarrow> nat \<Rightarrow> handle option io" where
  "first_visible env [] ms s = (Inr None, s)"
| "first_visible env (selector # rest) ms s =
     (case page_handle env (WaitForSelector selector ms) s of
        (Inr (Some h), s') \<Rightarrow> (Inr (Some h), s')
      | (r, s') \<Rightarrow> first_visible env rest ms s')"

text \<open>
  The option loop of the dropdown and of the autocomplete: the first candidate that
  appears is clicked; an exception of the wait, of the click or of the pause is swallowed
  and the next candidate is tried.
\<close>

fun pick_option :: "env \<Rightarrow> string list \<Rightarrow> bool io" where
  "pick_option env [] s = (Inr False, s)"
| "pick_option env (selector # rest) s =
     (case page_handle env (WaitForSelector selector 3000) s of
        (Inr (Some h), s1) \<Rightarrow>
          (case steps [page_do env (Click h), wait_for_timeout env 1000] s1 of
             (Inr u, s2) \<Rightarrow> (Inr True, s2)
           | (Inl e, s2) \<Rightarrow> pick_option env rest s2)
      | (r, s1) \<Rightarrow> pick_option env rest s1)"

definition website_selectors :: "string list" where
  \<open>website_selectors =
     [''input[name="websiteURLOrKeyword"]'', ''input[data-testid="websiteURLOrKeyword"]'',
      ''.MuiInputBase-input'', ''input[type="text"]'']\<close>

definition fill_website_field :: "env \<Rightarrow> string \<Rightarrow> bool io" where
  "fill_website_field env website_url =
     try_except
       (bind (first_visible env website_selectors 2000) (\<lambda>website_input.
          case website_input of
            None \<Rightarrow> return False
          | Some h \<Rightarrow>
              bind (steps [page_do env (Click h), wait_for_timeout env 500,
                           page_do env (SelectText h), page_do env (TypeText h website_url 100),
                           wait_for_timeout env 1000])
                (\<lambda>u. return True)))
       (\<lambda>e. return False)"

definition industry_selectors :: "string list" where
  \<open>industry_selectors =
     [''[aria-label="industry"]'', ''div[role="combobox"] .MuiSelect-select'',
      ''.MuiSelect-select'', ''.sc-jYGMYt.sc-igAlAF.eZHANI.kHFAsD.MuiSelect-select'']\<close>

definition menu_selectors :: "string \<Rightarrow> string list" where
  \<open>menu_selectors industry_value =
     [''li[role="option"]:has-text("'' @ industry_value @ ''")'',
      ''.MuiMenuItem-root:has-text("'' @ industry_value @ ''")'',
      ''[role="option"]:has-text("'' @ industry_value @ ''")'',
      ''li:has-text("'' @ industry_value @ ''")'']\<close>

definition fill_industry_dropdown :: "env \<Rightarrow> string \<Rightarrow> bool io" where
  "fill_industry_dropdown env industry_value =
     (if industry_value = [] \<or> industry_value = ''All Industries'' then return True
      else
        try_except
          (bind (first_visible env industry_selectors 2000) (\<lambda>industry_dropdown.
             case industry_dropdown of
               None \<Rightarrow> return False
             | Some h \<Rightarrow>
                 bind (steps [page_do env (Click h), wait_for_timeout env 2000]) (\<lambda>u.
                   try_except
                     (bind (pick_option env (menu_selectors industry_value)) (\<lambda>option_found.
                        if \<not> option_found then
                          bind (page_do env (KeyPress ''Escape'')) (\<lambda>u. return False)
                        else return True))
                     (\<lambda>e. bind (page_do env (KeyPress ''Escape'')) (\<lambda>u. return False)))))
          (\<lambda>e. return False))"

definition location_selectors :: "string list" where
  \<open>location_selectors =
     [''[aria-label="location"] input'', ''input[aria-autocomplete="list"]'',
      ''.MuiAutocomplete-input'', ''input[role="combobox"]'',
      ''input[type="text"][autocomplete="off"]'']\<close>

definition autocomplete_selectors :: "string \<Rightarrow> string list" where
  \<open>autocomplete_selectors location_value =
     [''[role="option"]:has-text("'' @ location_value @ ''")'',
      ''[role="option"]'',
      ''.MuiAutocomplete-option:has-text("'' @ location_value @ ''")'',
      ''.MuiAutocomplete-option'',
      ''li[role="option"]:has-text("'' @ location_value @ ''")'',
      ''li[role="option"]'']\<close>

definition fill_location_autocomplete :: "env \<Rightarrow> string \<Rightarrow> bool io" where
  "fill_location_autocomplete env location_value =
     (if location_value = [] then return True
      else
        try_except
          (bind (first_visible env location_selectors 2000) (\<lambda>location_input.
             case location_input of
               None \<Rightarrow> return False
             | Some h \<Rightarrow>
                 bind (steps [page_do env (Click h), wait_for_timeout env 500,
                              page_do env (SelectText h), page_do env (KeyPress ''Delete''),
                              wait_for_timeout env 500,
                              page_do env (TypeText h location_value 100),
                              wait_for_timeout env 2000]) (\<lambda>u.
                   try_except
                     (bind (pick_option env (autocomplete_selectors location_value)) (\<lambda>option_selected.
                        if \<not> option_selected then
                          bind (steps [page_do env (KeyPress ''Tab''), wait_for_timeout env 500])
                            (\<lambda>u. return True)
                        else return True))
                     (\<lambda>e. bind (page_do env (KeyPress ''Tab'')) (\<lambda>u. return True)))))
          (\<lambda>e. return False))"

section \<open>Form submission\<close>

text \<open>
  \<open>not continue_button.is_visible() or not continue_button.is_enabled()\<close>: the second
  test is made only when the button is visible.
\<close>

definition click_continue_button :: "env \<Rightarrow> nat \<Rightarrow> bool io" where
  \<open>click_continue_button env timeout =
     try_except
       (bind (page_handle env (WaitForSelector ''button[data-testid="buttonContinue"]'' timeout))
          (\<lambda>continue_button.
        bind (case continue_button of
                None \<Rightarrow> page_handle env (WaitForSelector ''button:has-text("Continue")'' 2000)
              | Some h \<Rightarrow> return (Some h)) (\<lambda>continue_button.
        case continue_button of
          None \<Rightarrow> return False
        | Some h \<Rightarrow>
            bind (page_flag env (IsVisible h)) (\<lambda>visible.
            bind (if \<not> visible then return True
                  else bind (page_flag env (IsEnabled h)) (\<lambda>enabled. return (\<not> enabled)))
              (\<lambda>unusable.
            if unusable then return False
            else bind (steps [page_do env (Click h), wait_for_timeout env 2000])
                   (\<lambda>u. return True))))))
       (\<lambda>e. return False)\<close>

section \<open>Completion waiter\<close>

definition loading_selectors :: "string list" where
  \<open>loading_selectors =
     [''[data-testid*="loading"]'', ''.loading'', ''[class*="loading"]'',
      ''[role="progressbar"]'', ''text="Loading"'', ''text="Please wait"'',
      ''text="Analyzing"'', ''text="Processing"'']\<close>

definition max_wait_time :: nat where
  "max_wait_time = 120000"

text \<open>The selector that is queried for a loading selector.\<close>

definition indicator_query :: "string \<Rightarrow> string" where
  \<open>indicator_query selector =
     (if startswith selector ''text='' then ''text="'' @ drop 5 selector @ ''"'' else selector)\<close>

text \<open>\<open>any(el.is_visible() for el in elements)\<close>\<close>

fun any_visible :: "env \<Rightarrow> handle list \<Rightarrow> bool io" where
  "any_visible env [] s = (Inr False, s)"
| "any_visible env (el # els) s =
     (case page_flag env (IsVisible el) s of
        (Inl e, s1) \<Rightarrow> (Inl e, s1)
      | (Inr True, s1) \<Rightarrow> (Inr True, s1)
      | (Inr False, s1) \<Rightarrow> any_visible env els s1)"

text \<open>One scan of the loading selectors: the value of \<open>loading_visible\<close> after it.\<close>

fun loading_scan :: "env \<Rightarrow> string list \<Rightarrow> pstate \<Rightarrow> bool \<times> pstate" where
  "loading_scan env [] s = (False, s)"
| "loading_scan env (selector # rest) s =
     (case page_handles env (QuerySelectorAll (indicator_query selector)) s of
        (Inl e, s1) \<Rightarrow> loading_scan env rest s1
      | (Inr elements, s1) \<Rightarrow>
          (case any_visible env elements s1 of
             (Inr True, s2) \<Rightarrow> (True, s2)
           | (r, s2) \<Rightarrow> loading_scan env rest s2))"

text \<open>
  One tick of the poll loop: read the clock and leave when the ceiling is exceeded, scan
  and leave when no indicator is seen, else pause three seconds.
\<close>

datatype tick = Ceiling pstate | Cleared pstate | Crashed exn pstate | Again pstate

definition poll_tick :: "env \<Rightarrow> nat \<Rightarrow> pstate \<Rightarrow> tick" where
  "poll_tick env start_time s =
     (let current_time = clock s
      in if current_time - start_time > max_wait_time then Ceiling s
         else
           (case loading_scan env loading_selectors s of
              (False, s1) \<Rightarrow> Cleared s1
            | (True, s1) \<Rightarrow>
                (case wait_for_timeout env 3000 s1 of
                   (Inl e, s2) \<Rightarrow> Crashed e s2
                 | (Inr u, s2) \<Rightarrow> Again s2)))"

function wait_for_loading :: "env \<Rightarrow> nat \<Rightarrow> unit io" where
  "wait_for_loading env start_time s =
     (case poll_tick env start_time s of
        Ceiling s' \<Rightarrow> (Inr (), s')
      | Cleared s' \<Rightarrow> (Inr (), s')
      | Crashed e s' \<Rightarrow> (Inl e, s')
      | Again s' \<Rightarrow> wait_for_loading env start_time s')"
  by pat_completeness auto

termination wait_for_loading
proof (relation "measure (\<lambda>(env, start_time, s). start_time + max_wait_time + 1 - clock s)")
  show "wf (measure (\<lambda>(env, start_time, s). start_time + max_wait_time + 1 - clock s))"
    by simp
next
  fix env :: env and start_time :: nat and s s' :: pstate
  assume again: "poll_tick env start_time s = Again s'"
  have call_clock: "clock t \<le> clock (snd (call env a t))" for a t
    by (simp add: call_def split: prod.splits)
  have flag_clock: "clock t \<le> clock (snd (page_flag env a t))" for a t
    using call_clock [of t a]
    by (auto simp: page_flag_def split: prod.splits response.splits)
  have handles_clock: "clock t \<le> clock (snd (page_handles env a t))" for a t
    using call_clock [of t a]
    by (auto simp: page_handles_def split: prod.splits response.splits)
  have any_clock: "clock t \<le> clock (snd (any_visible env els t))" for els t
  proof (induction els arbitrary: t)
    case Nil
    show ?case by simp
  next
    case (Cons el els)
    obtain r t1 where f: "page_flag env (IsVisible el) t = (r, t1)"
      by (cases "page_flag env (IsVisible el) t")
    with flag_clock [of t "IsVisible el"] have le: "clock t \<le> clock t1" by simp
    from Cons.IH [of t1] le f show ?case
      by (auto split: sum.splits bool.splits)
  qed
  have scan_clock: "clock t \<le> clock (snd (loading_scan env sels t))" for sels t
  proof (induction sels arbitrary: t)
    case Nil
    show ?case by simp
  next
    case (Cons sel sels)
    obtain r t1 where q: "page_handles env (QuerySelectorAll (indicator_query sel)) t = (r, t1)"
      by (cases "page_handles env (QuerySelectorAll (indicator_query sel)) t")
    with handles_clock [of t "QuerySelectorAll (indicator_query sel)"]
    have le1: "clock t \<le> clock t1" by simp
    show ?case
    proof (cases r)
      case (Inl e)
      with q le1 Cons.IH [of t1] show ?thesis by simp
    next
      case (Inr elements)
      obtain v t2 where a: "any_visible env elements t1 = (v, t2)"
        by (cases "any_visible env elements t1")
      with any_clock [of t1 elements] have le2: "clock t1 \<le> clock t2" by simp
      from q Inr a le1 le2 Cons.IH [of t2] show ?thesis
        by (auto split: sum.splits bool.splits)
    qed
  qed
  have wait_clock: "clock t + ms \<le> clock t'" if "wait_for_timeout env ms t = (Inr (), t')" for ms t t'
    using that call_clock [of t "WaitForTimeout ms"]
    by (auto simp: wait_for_timeout_def page_do_def split: prod.splits response.splits sum.splits)
  from again obtain s1 where ceil: "\<not> clock s - start_time > max_wait_time"
    and scan: "loading_scan env loading_selectors s = (True, s1)"
    and wait: "wait_for_timeout env 3000 s1 = (Inr (), s')"
    by (auto simp: poll_tick_def Let_def split: if_splits prod.splits bool.splits sum.splits)
  from scan scan_clock [of s loading_selectors] have "clock s \<le> clock s1" by simp
  with wait_clock [OF wait] have "clock s + 3000 \<le> clock s'" by simp
  with ceil show "((env, start_time, s'), (env, start_time, s))
      \<in> measure (\<lambda>(env, start_time, s). start_time + max_wait_time + 1 - clock s)"
    by simp
qed

declare wait_for_loading.simps [simp del]

text \<open>The state at the start of the n-th poll tick, when the loop gets that far.\<close>

fun tick_state :: "env \<Rightarrow> nat \<Rightarrow> nat \<Rightarrow> pstate \<Rightarrow> pstate option" where
  "tick_state env start_time 0 s = Some s"
| "tick_state env start_time (Suc n) s =
     (case poll_tick env start_time s of
        Again s' \<Rightarrow> tick_state env start_time n s'
      | _ \<Rightarrow> None)"

section \<open>Collection orchestrator\<close>

definition close_selectors :: "string list" where
  \<open>close_selectors =
     [''button[aria-label*="close"]'', ''button[aria-label*="Close"]'', ''.close'',
      ''[data-testid*="close"]'',
      ''button:has-text("'' @ [char_of (195::nat), char_of (151::nat)] @ ''")'',
      ''button:has-text("Close")'', ''button:has-text("No thanks")'',
      ''button:has-text("Skip")'', ''button:has-text("Later")'']\<close>

text \<open>
  The loop over the close buttons: the first one that is there and visible is clicked;
  an exception of any call of an iteration is swallowed and the next selector is tried.
\<close>

fun close_popups :: "env \<Rightarrow> string list \<Rightarrow> unit io" where
  "close_popups env [] s = (Inr (), s)"
| "close_popups env (close_selector # rest) s =
     (case page_handle env (QuerySelector close_selector) s of
        (Inr (Some h), s1) \<Rightarrow>
          (case page_flag env (IsVisible h) s1 of
             (Inr True, s2) \<Rightarrow>
               (case steps [page_do env (Click h), wait_for_timeout env 1000] s2 of
                  (Inr u, s3) \<Rightarrow> (Inr (), s3)
                | (Inl e, s3) \<Rightarrow> close_popups env rest s3)
           | (r, s2) \<Rightarrow> close_popups env rest s2)
      | (r, s1) \<Rightarrow> close_popups env rest s1)"

definition dismiss_popups :: "env \<Rightarrow> unit io" where
  "dismiss_popups env =
     try_except
       (bind (close_popups env close_selectors) (\<lambda>u.
          steps [page_do env (KeyPress ''Escape''), wait_for_timeout env 1000]))
       (\<lambda>e. return ())"

definition navigate :: "env \<Rightarrow> nat \<Rightarrow> unit io" where
  "navigate env timeout =
     steps [page_do env (Goto ''https://tools.wordstream.com/fkt'' timeout),
            page_do env (WaitForLoadState ''networkidle'' timeout),
            wait_for_timeout env 3000,
            page_do env (Screenshot ''step1_loaded.png''),
            dismiss_popups env,
            page_do env (Screenshot ''step1_after_popup.png'')]"

definition fill_optional_fields :: "env \<Rightarrow> form_data \<Rightarrow> unit io" where
  "fill_optional_fields env fd =
     steps [if industry fd \<noteq> [] \<and> industry fd \<noteq> ''All Industries''
            then bind (fill_industry_dropdown env (industry fd)) (\<lambda>industry_success. return ())
            else return (),
            if location fd \<noteq> []
            then bind (fill_location_autocomplete env (location fd)) (\<lambda>location_success. return ())
            else return ()]"

definition await_results :: "env \<Rightarrow> unit io" where
  "await_results env =
     bind (steps [wait_for_timeout env 10000, page_do env (Screenshot ''step3_after_continue.png'')])
       (\<lambda>u. bind (\<lambda>s. wait_for_loading env (clock s) s)
       (\<lambda>u. steps [wait_for_timeout env 5000, page_do env (Screenshot ''step4_results.png'')]))"

definition results_selectors :: "string list" where
  \<open>results_selectors =
     [''table tbody tr'', ''table tr td'', ''[data-testid*="results"]'', ''.results'',
      ''[class*="result"]'', ''[class*="keyword"]'', ''.MuiTable-root'', ''.MuiDataGrid-root'',
      ''[role="grid"]'', ''[role="table"]'']\<close>

text \<open>The loop over the result selectors: \<open>results_found\<close> and \<open>keywords\<close> after it.\<close>

fun find_results :: "(string \<Rightarrow> string) \<Rightarrow> env \<Rightarrow> string list \<Rightarrow> pstate \<Rightarrow> (bool \<times> keyword_data list) \<times> pstate" where
  "find_results lower env [] s = ((False, []), s)"
| "find_results lower env (selector # rest) s =
     (case page_handles env (QuerySelectorAll selector) s of
        (Inl e, s1) \<Rightarrow> find_results lower env rest s1
      | (Inr elements, s1) \<Rightarrow>
          if length elements > 0 then
            (if contains selector ''table'' then
               (case extract_keywords_from_table lower env s1 of (kws, s2) \<Rightarrow> ((True, kws), s2))
             else ((True, []), s1))
          else find_results lower env rest s1)"

definition collect_results :: "(string \<Rightarrow> string) \<Rightarrow> env \<Rightarrow> keyword_data list io" where
  "collect_results lower env s =
     (case find_results lower env results_selectors s of
        ((results_found, kws), s1) \<Rightarrow>
          if \<not> results_found then
            bind (page_do env (Screenshot ''no_results_found.png'')) (\<lambda>u. return []) s1
          else (Inr kws, s1))"

text \<open>The body of the \<open>try\<close> of \<open>collect_keywords\<close>.\<close>

definition browser_steps :: "(string \<Rightarrow> string) \<Rightarrow> env \<Rightarrow> config \<Rightarrow> string \<Rightarrow> nat \<Rightarrow> keyword_data list io" where
  "browser_steps lower env config brand_website timeout =
     bind (navigate env timeout) (\<lambda>u.
     bind (fill_website_field env brand_website) (\<lambda>success.
     bind (if success then page_do env (Screenshot ''step2_website_filled.png'')
           else throw (Failure ''Failed to fill website field'')) (\<lambda>u.
     bind (get_llm env) (\<lambda>llm.
     bind (extract_form_data env config) (\<lambda>fd.
     bind (fill_optional_fields env fd) (\<lambda>u.
     bind (page_do env (Screenshot ''step2_filled.png'')) (\<lambda>u.
     bind (click_continue_button env 5000) (\<lambda>continue_success.
     bind (if \<not> continue_success then throw (Failure ''Failed to click Continue button'')
           else return ()) (\<lambda>u.
     bind (await_results env) (\<lambda>u.
     collect_results lower env))))))))))"

text \<open>
  The browser is launched, the body runs under \<open>except Exception\<close> (a screenshot, then
  the exception is raised again) and \<open>finally\<close> (the browser is closed).
\<close>

definition browser_session :: "(string \<Rightarrow> string) \<Rightarrow> env \<Rightarrow> config \<Rightarrow> string \<Rightarrow> nat \<Rightarrow> keyword_data list io" where
  "browser_session lower env config brand_website timeout =
     bind (steps [page_do env LaunchBrowser, page_do env NewContext, page_do env NewPage]) (\<lambda>u.
       try_finally
         (try_except (browser_steps lower env config brand_website timeout)
            (\<lambda>e. bind (page_do env (Screenshot ''error_screenshot.png'')) (\<lambda>u. throw e)))
         (page_do env CloseBrowser))"

text \<open>\<open>os.path.dirname\<close> (POSIX).\<close>

definition dirname :: "string \<Rightarrow> string" where
  "dirname p =
     (let head = rev (dropWhile (\<lambda>c. c \<noteq> CHR ''/'') (rev p))
      in if head \<noteq> [] \<and> \<not> (\<forall>c \<in> set head. c = CHR ''/'')
         then rev (dropWhile (\<lambda>c. c = CHR ''/'') (rev head)) else head)"

text \<open>
  \<open>clean_url\<close>: its value is only printed; \<open>urlparse\<close> can raise on the text it is given.
\<close>

definition clean_url :: "env \<Rightarrow> string \<Rightarrow> unit io" where
  "clean_url env url =
     page_do env (UrlParse (if startswith url ''http://'' \<or> startswith url ''https://'' then url
                            else ''https://'' @ url))"

text \<open>
  The files written with \<open>open(path, "w")\<close>, as the list of their rows. Errors of the
  file system while the result file is written are not modelled.
\<close>

type_synonym files = "string \<Rightarrow> string list list option"

definition fieldnames :: "string list" where
  "fieldnames = [''keyword'', ''monthly_volume'', ''cpc'', ''competition'']"

definition csv_row :: "keyword_data \<Rightarrow> string list" where
  "csv_row kd = [keyword kd, monthly_volume kd, cpc kd, competition kd]"

definition save_csv :: "string \<Rightarrow> keyword_data list \<Rightarrow> files \<Rightarrow> files" where
  "save_csv output_csv kws fs =
     (if kws \<noteq> [] then fs(output_csv \<mapsto> fieldnames # map csv_row kws)
      else fs(output_csv \<mapsto> [fieldnames]))"

definition collect_keywords :: "(string \<Rightarrow> string) \<Rightarrow> env \<Rightarrow> config \<Rightarrow> string \<Rightarrow> nat \<Rightarrow> files \<Rightarrow> pstate
    \<Rightarrow> (exn + unit) \<times> files \<times> pstate" where
  "collect_keywords lower env config output_csv timeout fs s =
     (case page_do env (Makedirs (dirname output_csv)) s of
        (Inl e, s0) \<Rightarrow> (Inl e, fs, s0)
      | (Inr u, s0) \<Rightarrow>
          (case config ''brand_website'' of
             None \<Rightarrow> (Inl (Failure ''No brand_website found in config file''), fs, s0)
           | Some (CStr brand_website) \<Rightarrow>
               if brand_website = [] then
                 (Inl (Failure ''No brand_website found in config file''), fs, s0)
               else
                 (case clean_url env brand_website s0 of
                    (Inl e, s1) \<Rightarrow> (Inl e, fs, s1)
                  | (Inr u, s1) \<Rightarrow>
                      (case browser_session lower env config brand_website timeout s1 of
                         (Inl e, s2) \<Rightarrow> (Inl e, fs, s2)
                       | (Inr kws, s2) \<Rightarrow> (Inr (), save_csv output_csv kws fs, s2)))
           | Some v \<Rightarrow>
               if truthy v then (Inl (Failure ''AttributeError: startswith''), fs, s0)
               else (Inl (Failure ''No brand_website found in config file''), fs, s0)))"

section \<open>Test pages\<close>

definition shoes_page :: env where
  "shoes_page h a =
     (case a of
        QuerySelectorAll sel \<Rightarrow> (if sel = ''table'' then Handles [1] else Handles [], 0)
      | ElemQueryAll e sel \<Rightarrow>
          (if e = 1 \<and> sel = ''tr'' then Handles [10, 20, 30, 40]
           else if e \<in> {10, 20, 30, 40} \<and> sel = ''td, th'' then Handles [e + 1, e + 2]
           else Handles [], 0)
      | InnerText c \<Rightarrow>
          (Text (if c = 11 then ''Keyword'' else if c = 12 then ''Monthly Volume''
                 else if c = 21 then ''running shoes'' else if c = 22 then ''1000''
                 else if c = 31 then ''-'' else if c = 32 then ''-''
                 else if c = 41 then ''trail shoes'' else []), 0)
      | _ \<Rightarrow> (Done, 0))"

definition start :: pstate where
  "start = \<lparr>trace = [], clock = 0\<rparr>"

text \<open>
  A site that answers every call at once: every control is found, no popup and no loading
  indicator is there, the LLM answers with a valid label, and the results are the table of
  \<open>shoes_page\<close>.
\<close>

definition shoes_site :: env where
  "shoes_site h a =
     (case a of
        QuerySelectorAll sel \<Rightarrow>
          (if sel = ''table tbody tr'' then (Handles [20, 30, 40], 0) else shoes_page h a)
      | QuerySelector sel \<Rightarrow> (Handle None, 0)
      | WaitForSelector sel ms \<Rightarrow> (Handle (Some 2), 0)
      | IsVisible e \<Rightarrow> (Flag True, 0)
      | IsEnabled e \<Rightarrow> (Flag True, 0)
      | ChatCompletion prompt \<Rightarrow> (Choices [Some (Some ''Retail & E-commerce'')], 0)
      | _ \<Rightarrow> shoes_page h a)"

definition shoes_config :: config where
  "shoes_config key =
     (if key = ''brand_website'' then Some (CStr ''https://www.shoes.example'')
      else if key = ''industry'' then Some (CStr ''shoe shop'')
      else if key = ''locations'' then Some (CList [CStr ''Austin'', CStr ''Dallas''] ''['Austin', 'Dallas']'')
      else None)"

definition no_files :: files where
  "no_files = (\<lambda>path. None)"

text \<open>An LLM whose call raises, and one that answers outside the list.\<close>

definition mute_llm :: env where
  "mute_llm h a = (case a of ChatCompletion prompt \<Rightarrow> (Raise, 0) | _ \<Rightarrow> (Done, 0))"

definition chatty_llm :: env where
  "chatty_llm h a =
     (case a of ChatCompletion prompt \<Rightarrow> (Choices [Some (Some ''Shoes, probably'')], 0)
      | _ \<Rightarrow> (Done, 0))"

text \<open>
  A page that shows the controls and never a menu item or a suggestion, and a page that
  is closed once the pause of two seconds after the typing has been made: every later
  call raises.
\<close>

definition no_options_page :: env where
  "no_options_page h a =
     (case a of
        WaitForSelector sel ms \<Rightarrow>
          (if sel \<in> set industry_selectors \<or> sel \<in> set location_selectors
           then (Handle (Some 5), 0) else (Raise, ms))
      | _ \<Rightarrow> (Done, 0))"

definition closing_page :: env where
  "closing_page h a =
     (if WaitForTimeout 2000 \<in> set h then (Raise, 0)
      else (case a of WaitForSelector sel ms \<Rightarrow> (Handle (Some 5), 0) | _ \<Rightarrow> (Done, 0)))"

text \<open>
  A page whose Continue button has no \<open>data-testid\<close>: the wait for the first candidate
  raises when its timeout has passed, the button with the text is visible and enabled.
\<close>

definition text_button_page :: env where
  \<open>text_button_page h a =
     (case a of
        WaitForSelector sel ms \<Rightarrow>
          (if sel = ''button:has-text("Continue")'' then (Handle (Some 7), 0) else (Raise, ms))
      | IsVisible e \<Rightarrow> (Flag True, 0)
      | IsEnabled e \<Rightarrow> (Flag True, 0)
      | _ \<Rightarrow> (Done, 0))\<close>

text \<open>A page on which a loading indicator stays visible for ever; every call is instant.\<close>

definition busy_page :: env where
  "busy_page h a =
     (case a of
        QuerySelectorAll sel \<Rightarrow> (Handles [9], 0)
      | IsVisible e \<Rightarrow> (Flag True, 0)
      | _ \<Rightarrow> (Done, 0))"

text \<open>A site on which no control is ever found and nothing else fails.\<close>

definition blank_site :: env where
  "blank_site h a =
     (case a of
        WaitForSelector sel ms \<Rightarrow> (Raise, ms)
      | QuerySelector sel \<Rightarrow> (Handle None, 0)
      | QuerySelectorAll sel \<Rightarrow> (Handles [], 0)
      | _ \<Rightarrow> (Done, 0))"


text \<open>A site that cannot be reached: the navigation raises after its timeout.\<close>

definition offline_site :: env where
  "offline_site h a = (case a of Goto url ms \<Rightarrow> (Raise, ms) | _ \<Rightarrow> (Done, 0))"

text \<open>What the extractor promises of a record.\<close>

definition record_ok :: "(string \<Rightarrow> string) \<Rightarrow> keyword_data \<Rightarrow> bool" where
  "record_ok lower r =
     (keyword r \<noteq> [] \<and> 1 < py_len (keyword r) \<and> lower (keyword r) \<notin> set header_lexicon)"

section \<open>Properties of the extractor\<close>

lemma startswith_refl: "startswith s s"
  by (induction s) auto

lemma contains_refl: "contains s s"
  by (cases s) (auto simp: startswith_refl)

lemma not_header_not_token:
  assumes "\<not> is_header_row lower cell_texts"
  shows "lower (hd cell_texts) \<notin> set header_lexicon"
proof
  assume "lower (hd cell_texts) \<in> set header_lexicon"
  with contains_refl [of "lower (hd cell_texts)"] have "is_header_row lower cell_texts"
    unfolding is_header_row_def by blast
  with assms show False by simp
qed

lemma keyword_make: "2 \<le> length cell_texts \<Longrightarrow> keyword (make_keyword_data cell_texts) = hd cell_texts"
  by (cases cell_texts) (auto simp: make_keyword_data_def)

lemma row_step_ok:
  assumes "\<forall>r \<in> set kws. record_ok lower r"
    and "row_step lower cell_texts header_found kws = (header_found', kws')"
  shows "\<forall>r \<in> set kws'. record_ok lower r"
proof (cases "\<not> is_header_row lower cell_texts \<and> \<not> is_empty_row cell_texts \<and> header_found
    \<and> 2 \<le> length cell_texts \<and> meaningful lower (make_keyword_data cell_texts)")
  case True
  then have k: "kws' = kws @ [make_keyword_data cell_texts]"
    using assms(2) by (simp add: row_step_def Let_def)
  from True have len: "2 \<le> length cell_texts" and nh: "\<not> is_header_row lower cell_texts"
    and m: "meaningful lower (make_keyword_data cell_texts)" by simp_all
  have "record_ok lower (make_keyword_data cell_texts)"
    using m not_header_not_token [OF nh]
    by (simp add: record_ok_def meaningful_def keyword_make [OF len])
  with assms(1) k show ?thesis by auto
next
  case False
  then have "kws' = kws"
    using assms(2) by (auto simp: row_step_def Let_def split: if_splits)
  with assms(1) show ?thesis by simp
qed

lemma rows_loop_ok:
  "\<forall>r \<in> set kws. record_ok lower r \<Longrightarrow>
   \<forall>r \<in> set (snd (fst (rows_loop lower env rows header_found kws s))). record_ok lower r"
proof (induction rows arbitrary: header_found kws s)
  case Nil
  then show ?case by simp
next
  case (Cons row rows)
  show ?case
  proof (cases "page_handles env (ElemQueryAll row ''td, th'') s")
    case (Pair q s1)
    show ?thesis
    proof (cases q)
      case (Inl e)
      with Pair Cons.prems show ?thesis by simp
    next
      case (Inr cells)
      show ?thesis
      proof (cases "length cells = 0")
        case True
        with Pair Inr Cons.IH [OF Cons.prems] show ?thesis by simp
      next
        case False
        show ?thesis
        proof (cases "read_cells env cells s1")
          case rc: (Pair q2 s2)
          show ?thesis
          proof (cases q2)
            case (Inl e)
            with Pair Inr False rc Cons.prems show ?thesis by simp
          next
            case texts: (Inr cell_texts)
            obtain hf' kws' where st: "row_step lower cell_texts header_found kws = (hf', kws')"
              by (cases "row_step lower cell_texts header_found kws")
            from row_step_ok [OF Cons.prems st] have "\<forall>r \<in> set kws'. record_ok lower r" .
            from Cons.IH [OF this] Pair Inr False rc texts st show ?thesis by simp
          qed
        qed
      qed
    qed
  qed
qed

lemma tables_loop_ok:
  "\<forall>r \<in> set kws. record_ok lower r \<Longrightarrow>
   \<forall>r \<in> set (snd (fst (tables_loop lower env tables kws s))). record_ok lower r"
proof (induction tables arbitrary: kws s)
  case Nil
  then show ?case by simp
next
  case (Cons table tables)
  show ?case
  proof (cases "page_handles env (ElemQueryAll table ''tr'') s")
    case (Pair q s1)
    show ?thesis
    proof (cases q)
      case (Inl e)
      with Pair Cons.prems show ?thesis by simp
    next
      case (Inr rows)
      obtain r kws' s2 where rl: "rows_loop lower env rows False kws s1 = ((r, kws'), s2)"
        by (metis surj_pair)
      from rows_loop_ok [OF Cons.prems, where env = env and rows = rows and header_found = False and s = s1] rl
      have ok: "\<forall>r \<in> set kws'. record_ok lower r" by simp
      show ?thesis
      proof (cases r)
        case None
        with Pair Inr rl Cons.IH [OF ok] show ?thesis by simp
      next
        case (Some e)
        with Pair Inr rl ok show ?thesis by simp
      qed
    qed
  qed
qed

lemma extract_ok: "\<forall>r \<in> set (fst (extract_keywords_from_table lower env s)). record_ok lower r"
proof (cases "page_handles env (QuerySelectorAll ''table'') s")
  case (Pair q s1)
  show ?thesis
  proof (cases q)
    case (Inl e)
    with Pair show ?thesis by (simp add: extract_keywords_from_table_def)
  next
    case (Inr tables)
    have "\<forall>r \<in> set (snd (fst (tables_loop lower env tables [] s1))). record_ok lower r"
      by (rule tables_loop_ok) simp
    with Pair Inr show ?thesis
      by (simp add: extract_keywords_from_table_def split: prod.splits)
  qed
qed

text \<open>
  C1 (as the code has it). On the table with the rows \<open>["Keyword","Monthly Volume"]\<close>,
  \<open>["running shoes","1000"]\<close>, \<open>["-","-"]\<close> and \<open>["trail shoes",""]\<close> the extractor
  yields exactly two records, none for the header row and none for the placeholder row.
  The cells a row does not have default to \<open>N/A\<close>; the second cell of the last row is
  present and empty, and the record keeps the empty text as its \<open>monthly_volume\<close>.
  The texts of the table are ASCII, on which \<open>str.lower\<close> is \<open>ascii_lower\<close>.
\<close>

theorem extract_shoes_table:
  "fst (extract_keywords_from_table ascii_lower shoes_page start) =
     [\<lparr>keyword = ''running shoes'', monthly_volume = ''1000'', cpc = ''N/A'', competition = ''N/A''\<rparr>,
      \<lparr>keyword = ''trail shoes'', monthly_volume = [], cpc = ''N/A'', competition = ''N/A''\<rparr>]"
  by code_simp

text \<open>
  C1 as stated fails: the second record does not have \<open>monthly_volume = "N/A"\<close>.
\<close>

theorem extract_shoes_table_not_as_stated:
  "fst (extract_keywords_from_table ascii_lower shoes_page start) \<noteq>
     [\<lparr>keyword = ''running shoes'', monthly_volume = ''1000'', cpc = ''N/A'', competition = ''N/A''\<rparr>,
      \<lparr>keyword = ''trail shoes'', monthly_volume = ''N/A'', cpc = ''N/A'', competition = ''N/A''\<rparr>]"
  by code_simp

text \<open>
  A row whose first cell lower-cases to a header token is a header row, whatever
  \<open>str.lower\<close> does to reach the token (U+212A, the Kelvin sign, lower-cases to \<open>k\<close>),
  and leaves the keywords as they are.
\<close>

lemma header_token_row:
  assumes "lower (hd cell_texts) \<in> set header_lexicon"
  shows "row_step lower cell_texts header_found kws = (True, kws)"
proof -
  from assms contains_refl [of "lower (hd cell_texts)"] have "is_header_row lower cell_texts"
    unfolding is_header_row_def by blast
  then show ?thesis by (simp add: row_step_def)
qed

text \<open>
  A keyword of one code point is dropped, also when its encoding has two bytes
  (U+00E9), and a row whose cells hold no-break spaces only (U+00A0) is skipped.
\<close>

lemma single_code_point_dropped:
  "row_step ascii_lower [bytes [195, 169], ''5''] True [] = (True, [])"
  by code_simp

lemma nbsp_row_skipped:
  "is_empty_row [bytes [194, 160], bytes [194, 160]] \<and>
   row_step ascii_lower [bytes [194, 160], bytes [194, 160]] True [] = (True, [])"
  by code_simp

text \<open>
  C5. Every record the extractor emits, on every page, whatever the page calls do and
  whatever function \<open>str.lower\<close> is, has a keyword that is not empty, has more than one
  code point and whose lower-cased text is none of the header tokens (\<open>keyword\<close>,
  \<open>search term\<close>, \<open>phrase\<close>, and \<open>query\<close> too); in particular a row whose first
  cell is \<open>keyword\<close> in any letter case is never emitted, wherever it stands in its
  table.
\<close>

theorem emitted_keyword_meaningful:
  "\<forall>r \<in> set (fst (extract_keywords_from_table lower env s)).
     keyword r \<noteq> [] \<and> 1 < py_len (keyword r) \<and> lower (keyword r) \<notin> set header_lexicon \<and>
     lower (keyword r) \<noteq> ''keyword''"
  using extract_ok [of lower env s] by (auto simp: record_ok_def header_lexicon_def)

theorem emitted_keyword_meaningful_witness:
  "\<lparr>keyword = ''running shoes'', monthly_volume = ''1000'', cpc = ''N/A'', competition = ''N/A''\<rparr>
     \<in> set (fst (extract_keywords_from_table ascii_lower shoes_page start)) \<and>
   ''running shoes'' \<noteq> [] \<and> 1 < py_len ''running shoes'' \<and>
   ascii_lower ''running shoes'' \<notin> set header_lexicon \<and>
   ascii_lower ''running shoes'' \<noteq> ''keyword''"
proof -
  have m: "\<lparr>keyword = ''running shoes'', monthly_volume = ''1000'', cpc = ''N/A'', competition = ''N/A''\<rparr>
     \<in> set (fst (extract_keywords_from_table ascii_lower shoes_page start))"
    by code_simp
  from emitted_keyword_meaningful [of ascii_lower shoes_page start, rule_format, OF m] m
  show ?thesis by simp
qed

section \<open>Properties of the industry mapper\<close>

lemma try_except_return_total:
  "\<exists>x s'. try_except m (\<lambda>e. return d) s = (Inr x, s')"
  by (cases "m s") (auto simp: try_except_def return_def split: sum.splits)

text \<open>
  An input of no-break spaces only (U+00A0) is blank: the mapper answers without asking
  the LLM, which on this site would have answered \<open>Retail & E-commerce\<close>.
\<close>

lemma nbsp_industry_is_blank:
  "map_industry_to_wordstream shoes_site (bytes [194, 160, 194, 160]) start
     = (Inr ''Business Services'', start)"
  by code_simp

text \<open>
  C6. For every input text and whatever the LLM does, the industry mapper returns (it never
  raises) a label of the closed list \<open>valid_industries\<close>; the label is
  \<open>Business Services\<close> when the input is empty or blank, when the completion raises,
  and when the stripped answer is not in the list; a stripped answer of the list is
  returned as it is.
\<close>

theorem industry_mapper_closed_set:
  "\<exists>label s'. map_industry_to_wordstream env industry_text s = (Inr label, s') \<and>
     label \<in> set valid_industries \<and>
     (industry_text = [] \<or> strip industry_text = [] \<longrightarrow> label = ''Business Services'') \<and>
     (\<forall>e. fst (generate_completion env (industry_prompt industry_text) s) = Inl e
        \<longrightarrow> label = ''Business Services'') \<and>
     (\<forall>answer. fst (generate_completion env (industry_prompt industry_text) s) = Inr answer
        \<and> answer \<notin> set valid_industries \<longrightarrow> label = ''Business Services'') \<and>
     (\<forall>answer. industry_text \<noteq> [] \<and> strip industry_text \<noteq> []
        \<and> fst (generate_completion env (industry_prompt industry_text) s) = Inr answer
        \<and> answer \<in> set valid_industries \<longrightarrow> label = answer)"
proof -
  have bs: "''Business Services'' \<in> set valid_industries"
    by (simp add: valid_industries_def)
  show ?thesis
  proof (cases "industry_text = [] \<or> strip industry_text = []")
    case True
    then have "map_industry_to_wordstream env industry_text s = (Inr ''Business Services'', s)"
      by (simp add: map_industry_to_wordstream_def return_def)
    with bs True show ?thesis by auto
  next
    case nb: False
    obtain r s1 where g: "generate_completion env (industry_prompt industry_text) s = (r, s1)"
      by (cases "generate_completion env (industry_prompt industry_text) s")
    show ?thesis
    proof (cases r)
      case (Inl e)
      with nb g have "map_industry_to_wordstream env industry_text s = (Inr ''Business Services'', s1)"
        by (simp add: map_industry_to_wordstream_def try_except_def bind_def return_def)
      with nb bs g Inl show ?thesis by auto
    next
      case (Inr answer)
      show ?thesis
      proof (cases "answer \<in> set valid_industries")
        case True
        with nb g Inr have "map_industry_to_wordstream env industry_text s = (Inr answer, s1)"
          by (simp add: map_industry_to_wordstream_def try_except_def bind_def return_def)
        with nb True g Inr show ?thesis by auto
      next
        case notin: False
        with nb g Inr
        have "map_industry_to_wordstream env industry_text s = (Inr ''Business Services'', s1)"
          by (simp add: map_industry_to_wordstream_def try_except_def bind_def return_def)
        with nb bs notin g Inr show ?thesis by auto
      qed
    qed
  qed
qed

theorem industry_mapper_closed_set_witness:
  "strip ''   '' = [] \<and>
   fst (map_industry_to_wordstream shoes_site ''   '' start) = Inr ''Business Services'' \<and>
   fst (generate_completion mute_llm (industry_prompt ''shoe shop'') start)
     = Inl (Raised (ChatCompletion (industry_prompt ''shoe shop''))) \<and>
   fst (map_industry_to_wordstream mute_llm ''shoe shop'' start) = Inr ''Business Services'' \<and>
   fst (generate_completion chatty_llm (industry_prompt ''shoe shop'') start) = Inr ''Shoes, probably'' \<and>
   ''Shoes, probably'' \<notin> set valid_industries \<and>
   fst (map_industry_to_wordstream chatty_llm ''shoe shop'' start) = Inr ''Business Services'' \<and>
   fst (generate_completion shoes_site (industry_prompt ''shoe shop'') start) = Inr ''Retail & E-commerce'' \<and>
   ''Retail & E-commerce'' \<in> set valid_industries \<and>
   fst (map_industry_to_wordstream shoes_site ''shoe shop'' start) = Inr ''Retail & E-commerce''"
proof -
  have blank: "strip ''   '' = []" by code_simp
  have raised: "fst (generate_completion mute_llm (industry_prompt ''shoe shop'') start)
      = Inl (Raised (ChatCompletion (industry_prompt ''shoe shop'')))" by code_simp
  have invalid: "fst (generate_completion chatty_llm (industry_prompt ''shoe shop'') start)
      = Inr ''Shoes, probably''" by code_simp
  have notin: "''Shoes, probably'' \<notin> set valid_industries" by code_simp
  have valid: "fst (generate_completion shoes_site (industry_prompt ''shoe shop'') start)
      = Inr ''Retail & E-commerce''" by code_simp
  have isin: "''Retail & E-commerce'' \<in> set valid_industries" by code_simp
  have nonblank: "''shoe shop'' \<noteq> [] \<and> strip ''shoe shop'' \<noteq> []" by code_simp
  from industry_mapper_closed_set [of shoes_site "''   ''" start] blank
  have a: "fst (map_industry_to_wordstream shoes_site ''   '' start) = Inr ''Business Services''"
    by auto
  from industry_mapper_closed_set [of mute_llm "''shoe shop''" start] raised
  have b: "fst (map_industry_to_wordstream mute_llm ''shoe shop'' start) = Inr ''Business Services''"
    by auto
  from industry_mapper_closed_set [of chatty_llm "''shoe shop''" start] invalid notin
  have c: "fst (map_industry_to_wordstream chatty_llm ''shoe shop'' start) = Inr ''Business Services''"
    by auto
  from industry_mapper_closed_set [of shoes_site "''shoe shop''" start] valid isin nonblank
  have d: "fst (map_industry_to_wordstream shoes_site ''shoe shop'' start) = Inr ''Retail & E-commerce''"
    by auto
  from blank raised invalid notin valid isin a b c d show ?thesis by blast
qed

section \<open>Properties of the field fillers\<close>

text \<open>
  C8. With an empty target value the industry filler and the location filler, and with
  the target \<open>All Industries\<close> the industry filler, return success and leave the state
  as it is: no call is made on the page.
\<close>

theorem fillers_skip_without_interaction:
  "(industry_value = [] \<or> industry_value = ''All Industries''
      \<longrightarrow> fill_industry_dropdown env industry_value s = (Inr True, s)) \<and>
   fill_location_autocomplete env [] s = (Inr True, s)"
  by (simp add: fill_industry_dropdown_def fill_location_autocomplete_def return_def)

theorem fillers_skip_without_interaction_witness:
  "fill_industry_dropdown shoes_site [] start = (Inr True, start) \<and>
   fill_industry_dropdown shoes_site ''All Industries'' start = (Inr True, start) \<and>
   fill_location_autocomplete shoes_site [] start = (Inr True, start)"
  using fillers_skip_without_interaction [of "[]" shoes_site start]
    fillers_skip_without_interaction [of "''All Industries''" shoes_site start]
  by simp

lemma fill_website_field_total: "\<exists>b s'. fill_website_field env website_url s = (Inr b, s')"
  unfolding fill_website_field_def by (rule try_except_return_total)

lemma fill_industry_dropdown_total: "\<exists>b s'. fill_industry_dropdown env industry_value s = (Inr b, s')"
proof (cases "industry_value = [] \<or> industry_value = ''All Industries''")
  case True
  then show ?thesis by (auto simp: fill_industry_dropdown_def return_def)
next
  case False
  then show ?thesis
    unfolding fill_industry_dropdown_def using try_except_return_total by simp
qed

lemma fill_location_autocomplete_total:
  "\<exists>b s'. fill_location_autocomplete env location_value s = (Inr b, s')"
proof (cases "location_value = []")
  case True
  then show ?thesis by (auto simp: fill_location_autocomplete_def return_def)
next
  case False
  then show ?thesis
    unfolding fill_location_autocomplete_def using try_except_return_total by simp
qed

lemma page_do_trace: "page_do env a s = (r, s') \<Longrightarrow> trace s' = trace s @ [a]"
  by (auto simp: page_do_def call_def split: prod.splits response.splits)

lemma page_do_raised: "page_do env a s = (Inl e, s') \<Longrightarrow> e = Raised a"
  by (auto simp: page_do_def call_def split: prod.splits response.splits)

lemma dropdown_escape:
  assumes v: "industry_value \<noteq> []" "industry_value \<noteq> ''All Industries''"
    and found: "first_visible env industry_selectors 2000 s = (Inr (Some h), s1)"
    and opened: "steps [page_do env (Click h), wait_for_timeout env 2000] s1 = (Inr (), s2)"
    and none: "pick_option env (menu_selectors industry_value) s2 = (Inr False, s3)"
  shows "\<exists>s'. fill_industry_dropdown env industry_value s = (Inr False, s') \<and>
           (trace s' = trace s3 @ [KeyPress ''Escape''] \<or>
            trace s' = trace s3 @ [KeyPress ''Escape'', KeyPress ''Escape''])"
proof -
  obtain r1 s4 where e1: "page_do env (KeyPress ''Escape'') s3 = (r1, s4)"
    by (cases "page_do env (KeyPress ''Escape'') s3")
  obtain r2 s5 where e2: "page_do env (KeyPress ''Escape'') s4 = (r2, s5)"
    by (cases "page_do env (KeyPress ''Escape'') s4")
  note t1 = page_do_trace [OF e1] and t2 = page_do_trace [OF e2]
  show ?thesis
  proof (cases r1)
    case (Inr u)
    with v found opened none e1
    have "fill_industry_dropdown env industry_value s = (Inr False, s4)"
      by (simp add: fill_industry_dropdown_def bind_def try_except_def return_def)
    with t1 show ?thesis by simp
  next
    case (Inl e)
    with v found opened none e1 e2
    have "fill_industry_dropdown env industry_value s = (Inr False, s5)"
      by (cases r2) (simp_all add: fill_industry_dropdown_def bind_def try_except_def return_def)
    with t1 t2 show ?thesis by simp
  qed
qed

lemma autocomplete_tab:
  assumes v: "location_value \<noteq> []"
    and found: "first_visible env location_selectors 2000 s = (Inr (Some h), s1)"
    and typed: "steps [page_do env (Click h), wait_for_timeout env 500,
                       page_do env (SelectText h), page_do env (KeyPress ''Delete''),
                       wait_for_timeout env 500,
                       page_do env (TypeText h location_value 100),
                       wait_for_timeout env 2000] s1 = (Inr (), s2)"
    and none: "pick_option env (autocomplete_selectors location_value) s2 = (Inr False, s3)"
    and confirm: "steps [page_do env (KeyPress ''Tab''), wait_for_timeout env 500] s3 = (r, s4)"
  shows "\<exists>b s' rest. fill_location_autocomplete env location_value s = (Inr b, s') \<and>
           trace s' = trace s3 @ KeyPress ''Tab'' # rest \<and>
           (b \<longleftrightarrow> r = Inr () \<or> fst (page_do env (KeyPress ''Tab'') s4) = Inr ())"
proof -
  obtain r1 t1 where p1: "page_do env (KeyPress ''Tab'') s3 = (r1, t1)"
    by (cases "page_do env (KeyPress ''Tab'') s3")
  obtain r2 t2 where p2: "wait_for_timeout env 500 t1 = (r2, t2)"
    by (cases "wait_for_timeout env 500 t1")
  obtain r3 s5 where p3: "page_do env (KeyPress ''Tab'') s4 = (r3, s5)"
    by (cases "page_do env (KeyPress ''Tab'') s4")
  have tr1: "trace t1 = trace s3 @ [KeyPress ''Tab'']" by (rule page_do_trace [OF p1])
  have tr2: "\<exists>rest. trace s4 = trace s3 @ KeyPress ''Tab'' # rest"
  proof (cases r1)
    case (Inl e)
    with p1 confirm have "s4 = t1" by (simp add: bind_def return_def)
    with tr1 show ?thesis by simp
  next
    case (Inr u)
    with p1 p2 confirm have "s4 = t2"
      by (cases r2) (simp_all add: bind_def return_def)
    moreover from p2 have "\<exists>x. trace t2 = trace t1 @ x"
      by (auto simp: wait_for_timeout_def split: prod.splits sum.splits dest: page_do_trace)
    ultimately show ?thesis using tr1 by auto
  qed
  then obtain rest where tr4: "trace s4 = trace s3 @ KeyPress ''Tab'' # rest" by blast
  show ?thesis
  proof (cases r)
    case (Inr u)
    with v found typed none confirm
    have "fill_location_autocomplete env location_value s = (Inr True, s4)"
      by (simp add: fill_location_autocomplete_def bind_def try_except_def return_def)
    with tr4 Inr show ?thesis by auto
  next
    case (Inl e)
    with v found typed none confirm p3
    have "fill_location_autocomplete env location_value s = (Inr (r3 = Inr ()), s5)"
      by (cases r3) (simp_all add: fill_location_autocomplete_def bind_def try_except_def return_def)
    moreover from page_do_trace [OF p3] tr4
    have "trace s5 = trace s3 @ KeyPress ''Tab'' # (rest @ [KeyPress ''Tab''])" by simp
    ultimately show ?thesis using Inl p3 by auto
  qed
qed

lemma page_handle_fst:
  "fst (page_handle env a s) = (case fst (env (trace s) a) of Handle x \<Rightarrow> Inr x | _ \<Rightarrow> Inl (Raised a))"
  by (simp add: page_handle_def call_def split: prod.splits response.splits)

text \<open>On a page that never shows one of the candidates, the option loop chooses nothing.\<close>

lemma pick_option_none:
  assumes "\<forall>sel \<in> set sels. \<forall>h x. fst (env h (WaitForSelector sel 3000)) \<noteq> Handle (Some x)"
  shows "fst (pick_option env sels s) = Inr False"
  using assms
proof (induction sels arbitrary: s)
  case Nil
  show ?case by simp
next
  case (Cons sel sels)
  from Cons.prems have here: "\<forall>x. fst (env (trace s) (WaitForSelector sel 3000)) \<noteq> Handle (Some x)"
    and later: "\<forall>c \<in> set sels. \<forall>h x. fst (env h (WaitForSelector c 3000)) \<noteq> Handle (Some x)"
    by simp_all
  obtain r s1 where w: "page_handle env (WaitForSelector sel 3000) s = (r, s1)"
    by (cases "page_handle env (WaitForSelector sel 3000) s")
  with page_handle_fst [of env "WaitForSelector sel 3000" s] here
  have "\<forall>x. r \<noteq> Inr (Some x)"
    by (auto split: response.splits)
  with w have "pick_option env (sel # sels) s = pick_option env sels s1"
    by (auto split: sum.splits option.splits)
  with Cons.IH [OF later, of s1] show ?case by simp
qed

text \<open>
  C9 (as the code has it). The three fillers return a boolean for every page and every
  input; no exception leaves them. When the dropdown has been opened and no menu item can
  be chosen (as when none appears, \<open>pick_option_none\<close>), the industry filler presses
  Escape (a second time when the first press raises) and returns false. When the location
  has been typed and no suggestion can be chosen, the location filler presses Tab; it
  returns true when that press and the pause after it succeed, or else when a second
  press of Tab succeeds, and false when the second press raises too.
\<close>

theorem fillers_never_raise:
  "(\<exists>b s'. fill_website_field env website_url s = (Inr b, s')) \<and>
   (\<exists>b s'. fill_industry_dropdown env industry_value s = (Inr b, s')) \<and>
   (\<exists>b s'. fill_location_autocomplete env location_value s = (Inr b, s')) \<and>
   (industry_value \<noteq> [] \<and> industry_value \<noteq> ''All Industries'' \<and>
    first_visible env industry_selectors 2000 s = (Inr (Some h), s1) \<and>
    steps [page_do env (Click h), wait_for_timeout env 2000] s1 = (Inr (), s2) \<and>
    pick_option env (menu_selectors industry_value) s2 = (Inr False, s3)
    \<longrightarrow> (\<exists>s'. fill_industry_dropdown env industry_value s = (Inr False, s') \<and>
           (trace s' = trace s3 @ [KeyPress ''Escape''] \<or>
            trace s' = trace s3 @ [KeyPress ''Escape'', KeyPress ''Escape'']))) \<and>
   (location_value \<noteq> [] \<and>
    first_visible env location_selectors 2000 s = (Inr (Some k), t1) \<and>
    steps [page_do env (Click k), wait_for_timeout env 500,
           page_do env (SelectText k), page_do env (KeyPress ''Delete''),
           wait_for_timeout env 500,
           page_do env (TypeText k location_value 100),
           wait_for_timeout env 2000] t1 = (Inr (), t2) \<and>
    pick_option env (autocomplete_selectors location_value) t2 = (Inr False, t3) \<and>
    steps [page_do env (KeyPress ''Tab''), wait_for_timeout env 500] t3 = (r, t4)
    \<longrightarrow> (\<exists>b s' rest. fill_location_autocomplete env location_value s = (Inr b, s') \<and>
           trace s' = trace t3 @ KeyPress ''Tab'' # rest \<and>
           (b \<longleftrightarrow> r = Inr () \<or> fst (page_do env (KeyPress ''Tab'') t4) = Inr ())))"
  using fill_website_field_total [of env website_url s]
    fill_industry_dropdown_total [of env industry_value s]
    fill_location_autocomplete_total [of env location_value s]
    dropdown_escape [of industry_value env s h s1 s2 s3]
    autocomplete_tab [of location_value env s k t1 t2 t3 r t4]
  by blast

theorem fillers_never_raise_witness:
  "fst (fill_industry_dropdown no_options_page ''Retail'' start) = Inr False \<and>
   last (trace (snd (fill_industry_dropdown no_options_page ''Retail'' start))) = KeyPress ''Escape'' \<and>
   fst (fill_location_autocomplete no_options_page ''Austin'' start) = Inr True \<and>
   KeyPress ''Tab'' \<in> set (trace (snd (fill_location_autocomplete no_options_page ''Austin'' start)))"
proof -
  define s1 where "s1 = snd (first_visible no_options_page industry_selectors 2000 start)"
  define s2 where "s2 = snd (steps [page_do no_options_page (Click 5),
      wait_for_timeout no_options_page 2000] s1)"
  define s3 where "s3 = snd (pick_option no_options_page (menu_selectors ''Retail'') s2)"
  define t1 where "t1 = snd (first_visible no_options_page location_selectors 2000 start)"
  define t2 where "t2 = snd (steps [page_do no_options_page (Click 5),
      wait_for_timeout no_options_page 500, page_do no_options_page (SelectText 5),
      page_do no_options_page (KeyPress ''Delete''), wait_for_timeout no_options_page 500,
      page_do no_options_page (TypeText 5 ''Austin'' 100),
      wait_for_timeout no_options_page 2000] t1)"
  define t3 where "t3 = snd (pick_option no_options_page (autocomplete_selectors ''Austin'') t2)"
  define t4 where "t4 = snd (steps [page_do no_options_page (KeyPress ''Tab''),
      wait_for_timeout no_options_page 500] t3)"
  have i1: "''Retail'' \<noteq> [] \<and> ''Retail'' \<noteq> ''All Industries''" by simp
  have i2: "first_visible no_options_page industry_selectors 2000 start = (Inr (Some 5), s1)"
    unfolding s1_def by code_simp
  have i3: "steps [page_do no_options_page (Click 5), wait_for_timeout no_options_page 2000] s1
      = (Inr (), s2)"
    unfolding s2_def s1_def by code_simp
  have i4: "pick_option no_options_page (menu_selectors ''Retail'') s2 = (Inr False, s3)"
    unfolding s3_def s2_def s1_def by code_simp
  have l1: "''Austin'' \<noteq> []" by simp
  have l2: "first_visible no_options_page location_selectors 2000 start = (Inr (Some 5), t1)"
    unfolding t1_def by code_simp
  have l3: "steps [page_do no_options_page (Click 5),
      wait_for_timeout no_options_page 500, page_do no_options_page (SelectText 5),
      page_do no_options_page (KeyPress ''Delete''), wait_for_timeout no_options_page 500,
      page_do no_options_page (TypeText 5 ''Austin'' 100),
      wait_for_timeout no_options_page 2000] t1 = (Inr (), t2)"
    unfolding t2_def t1_def by code_simp
  have l4: "pick_option no_options_page (autocomplete_selectors ''Austin'') t2 = (Inr False, t3)"
    unfolding t3_def t2_def t1_def by code_simp
  have l5: "steps [page_do no_options_page (KeyPress ''Tab''),
      wait_for_timeout no_options_page 500] t3 = (Inr (), t4)"
    unfolding t4_def t3_def t2_def t1_def by code_simp
  from fillers_never_raise [of no_options_page "[]" start "''Retail''" "''Austin''" 5 s1 s2 s3 5 t1 t2 t3 "Inr ()" t4]
    i1 i2 i3 i4 l1 l2 l3 l4 l5
  have a: "\<exists>s'. fill_industry_dropdown no_options_page ''Retail'' start = (Inr False, s') \<and>
           (trace s' = trace s3 @ [KeyPress ''Escape''] \<or>
            trace s' = trace s3 @ [KeyPress ''Escape'', KeyPress ''Escape''])"
    and b: "\<exists>b s' rest. fill_location_autocomplete no_options_page ''Austin'' start = (Inr b, s') \<and>
           trace s' = trace t3 @ KeyPress ''Tab'' # rest \<and>
           (b \<longleftrightarrow> Inr () = (Inr () :: exn + unit) \<or> fst (page_do no_options_page (KeyPress ''Tab'') t4) = Inr ())"
    by blast+
  from a have "fst (fill_industry_dropdown no_options_page ''Retail'' start) = Inr False \<and>
     last (trace (snd (fill_industry_dropdown no_options_page ''Retail'' start))) = KeyPress ''Escape''"
    by auto
  moreover from b have "fst (fill_location_autocomplete no_options_page ''Austin'' start) = Inr True \<and>
     KeyPress ''Tab'' \<in> set (trace (snd (fill_location_autocomplete no_options_page ''Austin'' start)))"
    by auto
  ultimately show ?thesis by blast
qed

text \<open>
  C9 as stated fails on a page that is closed after the location was typed: no
  suggestion appears, Tab is pressed twice, both presses raise, and the filler returns
  false.
\<close>

theorem autocomplete_false_without_suggestion:
  \<open>fill_location_autocomplete closing_page ''Austin'' start =
     (Inr False,
      \<lparr>trace =
         [WaitForSelector ''[aria-label="location"] input'' 2000,
          Click 5, WaitForTimeout 500, SelectText 5, KeyPress ''Delete'', WaitForTimeout 500,
          TypeText 5 ''Austin'' 100, WaitForTimeout 2000,
          WaitForSelector ''[role="option"]:has-text("Austin")'' 3000,
          WaitForSelector ''[role="option"]'' 3000,
          WaitForSelector ''.MuiAutocomplete-option:has-text("Austin")'' 3000,
          WaitForSelector ''.MuiAutocomplete-option'' 3000,
          WaitForSelector ''li[role="option"]:has-text("Austin")'' 3000,
          WaitForSelector ''li[role="option"]'' 3000,
          KeyPress ''Tab'', KeyPress ''Tab''],
       clock = 3000\<rparr>)\<close>
  by code_simp

text \<open>
  On a page whose answer to the wait for a candidate does not depend on what was done
  before, the selector loop of the fillers returns the first candidate of the list that
  becomes visible, and nothing exactly when none does.
\<close>

lemma first_visible_static:
  assumes "\<forall>sel \<in> set sels. \<forall>h. fst (env h (WaitForSelector sel ms)) = answer sel"
  shows "fst (first_visible env sels ms s) =
     Inr (case find (\<lambda>sel. case answer sel of Handle (Some x) \<Rightarrow> True | _ \<Rightarrow> False) sels of
            None \<Rightarrow> None
          | Some sel \<Rightarrow> (case answer sel of Handle x \<Rightarrow> x | _ \<Rightarrow> None))"
  using assms
proof (induction sels arbitrary: s)
  case Nil
  show ?case by simp
next
  case (Cons sel sels)
  from Cons.prems have here: "fst (env (trace s) (WaitForSelector sel ms)) = answer sel"
    and later: "\<forall>c \<in> set sels. \<forall>h. fst (env h (WaitForSelector c ms)) = answer c"
    by simp_all
  obtain r s1 where w: "page_handle env (WaitForSelector sel ms) s = (r, s1)"
    by (cases "page_handle env (WaitForSelector sel ms) s")
  with page_handle_fst [of env "WaitForSelector sel ms" s] here
  have r: "r = (case answer sel of Handle x \<Rightarrow> Inr x | _ \<Rightarrow> Inl (Raised (WaitForSelector sel ms)))"
    by simp
  show ?case
  proof (cases "case answer sel of Handle (Some x) \<Rightarrow> True | _ \<Rightarrow> False")
    case True
    then obtain h where "answer sel = Handle (Some h)"
      by (auto split: response.splits option.splits)
    with r w show ?thesis by simp
  next
    case False
    with r have "first_visible env (sel # sels) ms s = first_visible env sels ms s1"
      using w by (auto split: response.splits option.splits)
    with False Cons.IH [OF later, of s1] show ?thesis by simp
  qed
qed

text \<open>
  C2, on the Continue button. The first candidate does not become visible and its wait
  raises; the handler of \<open>click_continue_button\<close> returns false at once. The second
  candidate, which is visible on this page, is never waited for.
\<close>

theorem continue_fallback_not_tried:
  \<open>click_continue_button text_button_page 5000 start =
     (Inr False, \<lparr>trace = [WaitForSelector ''button[data-testid="buttonContinue"]'' 5000], clock = 5000\<rparr>) \<and>
   fst (page_handle text_button_page (WaitForSelector ''button:has-text("Continue")'' 2000) start)
     = Inr (Some 7)\<close>
  by code_simp


section \<open>Properties of the completion waiter\<close>

lemma poll_tick_again:
  "poll_tick env st s = Again s' \<Longrightarrow>
     \<not> clock s - st > max_wait_time \<and> fst (loading_scan env loading_selectors s)"
  by (auto simp: poll_tick_def Let_def split: if_splits prod.splits bool.splits sum.splits)

lemma wait_for_loading_first_exit:
  "\<exists>n t. tick_state env st n s = Some t \<and>
     (\<forall>k<n. \<exists>u. tick_state env st k s = Some u \<and> \<not> clock u - st > max_wait_time \<and>
        fst (loading_scan env loading_selectors u)) \<and>
     (if clock t - st > max_wait_time then wait_for_loading env st s = (Inr (), t)
      else case loading_scan env loading_selectors t of
             (False, t') \<Rightarrow> wait_for_loading env st s = (Inr (), t')
           | (True, t') \<Rightarrow>
               (\<exists>e t''. wait_for_timeout env 3000 t' = (Inl e, t'') \<and>
                  wait_for_loading env st s = (Inl e, t'')))"
proof (induction env st s rule: wait_for_loading.induct)
  case (1 env st s)
  let ?exit = "\<lambda>s t. (if clock t - st > max_wait_time then wait_for_loading env st s = (Inr (), t)
      else case loading_scan env loading_selectors t of
             (False, t') \<Rightarrow> wait_for_loading env st s = (Inr (), t')
           | (True, t') \<Rightarrow>
               (\<exists>e t''. wait_for_timeout env 3000 t' = (Inl e, t'') \<and>
                  wait_for_loading env st s = (Inl e, t'')))"
  show ?case
  proof (cases "poll_tick env st s")
    case (Again s')
    from "1.IH" [OF Again] obtain n t where ts: "tick_state env st n s' = Some t"
      and before: "\<forall>k<n. \<exists>u. tick_state env st k s' = Some u \<and> \<not> clock u - st > max_wait_time \<and>
        fst (loading_scan env loading_selectors u)"
      and ex: "?exit s' t" by blast
    from Again have same: "wait_for_loading env st s = wait_for_loading env st s'"
      by (subst wait_for_loading.simps) simp
    have a: "tick_state env st (Suc n) s = Some t" using Again ts by simp
    have b: "\<exists>u. tick_state env st k s = Some u \<and> \<not> clock u - st > max_wait_time \<and>
        fst (loading_scan env loading_selectors u)" if "k < Suc n" for k
    proof (cases k)
      case 0
      with poll_tick_again [OF Again] show ?thesis by simp
    next
      case (Suc j)
      with that have "j < n" by simp
      with before Suc Again show ?thesis by simp
    qed
    have c: "?exit s t" unfolding same using ex .
    from a b c show ?thesis by blast
  next
    case (Ceiling s')
    then have "clock s - st > max_wait_time \<and> wait_for_loading env st s = (Inr (), s)"
      by (subst wait_for_loading.simps)
        (auto simp: poll_tick_def Let_def split: if_splits prod.splits bool.splits sum.splits)
    then have "tick_state env st 0 s = Some s \<and> ?exit s s" by simp
    then show ?thesis by (intro exI [of _ 0] exI [of _ s]) simp
  next
    case (Cleared s')
    then have "\<not> clock s - st > max_wait_time \<and> loading_scan env loading_selectors s = (False, s')
        \<and> wait_for_loading env st s = (Inr (), s')"
      by (subst wait_for_loading.simps)
        (auto simp: poll_tick_def Let_def split: if_splits prod.splits bool.splits sum.splits)
    then have "tick_state env st 0 s = Some s \<and> ?exit s s" by simp
    then show ?thesis by (intro exI [of _ 0] exI [of _ s]) simp
  next
    case (Crashed e s')
    then have "\<not> clock s - st > max_wait_time \<and>
        (\<exists>s1. loading_scan env loading_selectors s = (True, s1) \<and>
           wait_for_timeout env 3000 s1 = (Inl e, s'))
        \<and> wait_for_loading env st s = (Inl e, s')"
      by (subst wait_for_loading.simps)
        (auto simp: poll_tick_def Let_def split: if_splits prod.splits bool.splits sum.splits)
    then have "tick_state env st 0 s = Some s \<and> ?exit s s" by auto
    then show ?thesis by (intro exI [of _ 0] exI [of _ s]) simp
  qed
qed

text \<open>With calls that take no time the clock moves with the pauses only.\<close>

lemma instant_call: "\<forall>h a. snd (env h a) = 0 \<Longrightarrow> clock (snd (call env a s)) = clock s"
  by (auto simp: call_def split: prod.splits) (metis snd_conv)

lemma instant_flag: "\<forall>h a. snd (env h a) = 0 \<Longrightarrow> clock (snd (page_flag env a s)) = clock s"
  using instant_call [of env a s]
  by (auto simp: page_flag_def split: prod.splits response.splits)

lemma instant_handles: "\<forall>h a. snd (env h a) = 0 \<Longrightarrow> clock (snd (page_handles env a s)) = clock s"
  using instant_call [of env a s]
  by (auto simp: page_handles_def split: prod.splits response.splits)

lemma instant_any_visible:
  "\<forall>h a. snd (env h a) = 0 \<Longrightarrow> clock (snd (any_visible env els s)) = clock s"
proof (induction els arbitrary: s)
  case Nil
  show ?case by simp
next
  case (Cons el els)
  obtain r s1 where f: "page_flag env (IsVisible el) s = (r, s1)"
    by (cases "page_flag env (IsVisible el) s")
  with instant_flag [OF Cons.prems, of "IsVisible el" s] have "clock s1 = clock s" by simp
  with Cons.IH [OF Cons.prems, of s1] f show ?case
    by (auto split: sum.splits bool.splits)
qed

lemma instant_scan:
  "\<forall>h a. snd (env h a) = 0 \<Longrightarrow> clock (snd (loading_scan env sels s)) = clock s"
proof (induction sels arbitrary: s)
  case Nil
  show ?case by simp
next
  case (Cons sel sels)
  obtain r s1 where q: "page_handles env (QuerySelectorAll (indicator_query sel)) s = (r, s1)"
    by (cases "page_handles env (QuerySelectorAll (indicator_query sel)) s")
  with instant_handles [OF Cons.prems, of "QuerySelectorAll (indicator_query sel)" s]
  have c1: "clock s1 = clock s" by simp
  show ?case
  proof (cases r)
    case (Inl e)
    with q c1 Cons.IH [OF Cons.prems, of s1] show ?thesis by simp
  next
    case (Inr elements)
    obtain v s2 where a: "any_visible env elements s1 = (v, s2)"
      by (cases "any_visible env elements s1")
    with instant_any_visible [OF Cons.prems, of elements s1] have "clock s2 = clock s1" by simp
    with q Inr a c1 Cons.IH [OF Cons.prems, of s2] show ?thesis
      by (auto split: sum.splits bool.splits)
  qed
qed

lemma instant_wait:
  assumes "\<forall>h a. snd (env h a) = 0" and "wait_for_timeout env ms s = (r, s')"
  shows "clock s' = (case r of Inl e \<Rightarrow> clock s | Inr u \<Rightarrow> clock s + ms)"
  using assms(2) instant_call [OF assms(1), of "WaitForTimeout ms" s]
  by (auto simp: wait_for_timeout_def page_do_def split: prod.splits response.splits sum.splits)

lemma instant_tick:
  assumes i: "\<forall>h a. snd (env h a) = 0"
  shows "case poll_tick env st s of
           Ceiling s' \<Rightarrow> s' = s
         | Cleared s' \<Rightarrow> clock s' = clock s \<and> clock s \<le> st + max_wait_time
         | Crashed e s' \<Rightarrow> clock s' = clock s \<and> clock s \<le> st + max_wait_time
         | Again s' \<Rightarrow> clock s' = clock s + 3000 \<and> clock s \<le> st + max_wait_time"
proof (cases "clock s - st > max_wait_time")
  case True
  then show ?thesis by (simp add: poll_tick_def)
next
  case False
  obtain v s1 where sc: "loading_scan env loading_selectors s = (v, s1)"
    by (cases "loading_scan env loading_selectors s")
  with instant_scan [OF i, of loading_selectors s] have c1: "clock s1 = clock s" by simp
  obtain r s2 where w: "wait_for_timeout env 3000 s1 = (r, s2)"
    by (cases "wait_for_timeout env 3000 s1")
  from instant_wait [OF i w] c1 False sc w show ?thesis
    by (cases v; cases r) (simp_all add: poll_tick_def)
qed

lemma instant_loop_bound:
  "\<forall>h a. snd (env h a) = 0 \<Longrightarrow> clock s \<le> st + max_wait_time + 3000 \<Longrightarrow>
     clock (snd (wait_for_loading env st s)) \<le> st + max_wait_time + 3000"
proof (induction env st s rule: wait_for_loading.induct)
  case (1 env st s)
  note tick = instant_tick [OF "1.prems"(1), where st = st and s = s]
  show ?case
  proof (cases "poll_tick env st s")
    case (Again s')
    with tick have "clock s' \<le> st + max_wait_time + 3000" by simp
    from "1.IH" [OF Again "1.prems"(1) this] Again show ?thesis
      by (subst wait_for_loading.simps) simp
  next
    case (Ceiling s')
    with tick "1.prems"(2) show ?thesis
      by (subst wait_for_loading.simps) simp
  next
    case (Cleared s')
    with tick show ?thesis
      by (subst wait_for_loading.simps) simp
  next
    case (Crashed e s')
    with tick show ?thesis
      by (subst wait_for_loading.simps) simp
  qed
qed

text \<open>
  C3 (as the code has it). The poll loop, entered at clock \<open>clock s\<close>, leaves at the
  first tick \<open>n\<close> at which the elapsed time read at the tick exceeds the ceiling of 120
  seconds (the state is then the one of the tick: no scan and no pause is begun), or at
  which the scan sees no visible loading indicator, whichever comes first; the only other
  exit is an exception of the pause. At every earlier tick the elapsed time was within the
  ceiling and an indicator was seen. The ceiling is tested at the ticks only, so the pause
  of three seconds begun at a tick within the ceiling can end after it: when the page calls
  take no time the loop ends at most 3000 ms past the ceiling.
\<close>

theorem poll_loop_exit:
  "(\<exists>n t. tick_state env (clock s) n s = Some t \<and>
     (\<forall>k<n. \<exists>u. tick_state env (clock s) k s = Some u \<and>
        \<not> clock u - clock s > max_wait_time \<and> fst (loading_scan env loading_selectors u)) \<and>
     (if clock t - clock s > max_wait_time
      then wait_for_loading env (clock s) s = (Inr (), t)
      else case loading_scan env loading_selectors t of
             (False, t') \<Rightarrow> wait_for_loading env (clock s) s = (Inr (), t')
           | (True, t') \<Rightarrow>
               (\<exists>e t''. wait_for_timeout env 3000 t' = (Inl e, t'') \<and>
                  wait_for_loading env (clock s) s = (Inl e, t'')))) \<and>
   ((\<forall>h a. snd (env h a) = 0) \<longrightarrow>
      clock (snd (wait_for_loading env (clock s) s)) - clock s \<le> max_wait_time + 3000)"
proof -
  have "clock (snd (wait_for_loading env (clock s) s)) - clock s \<le> max_wait_time + 3000"
    if "\<forall>h a. snd (env h a) = 0"
    using instant_loop_bound [OF that, of s "clock s"] by simp
  with wait_for_loading_first_exit [of env "clock s" s] show ?thesis by blast
qed

theorem poll_loop_exit_witness:
  "(\<exists>n t. tick_state busy_page (clock start) n start = Some t \<and>
      wait_for_loading busy_page (clock start) start = (Inr (), t) \<and>
      clock t - clock start > max_wait_time) \<and>
   clock (snd (wait_for_loading busy_page (clock start) start)) - clock start
     \<le> max_wait_time + 3000"
proof -
  have instant: "\<forall>h a. snd (busy_page h a) = 0"
    by (simp add: busy_page_def split: action.splits)
  have scan: "fst (loading_scan busy_page loading_selectors t)" for t
    by (simp add: loading_selectors_def busy_page_def page_handles_def page_flag_def call_def)
  have wait: "fst (wait_for_timeout busy_page 3000 t) = Inr ()" for t
    by (simp add: wait_for_timeout_def page_do_def busy_page_def call_def)
  from poll_loop_exit [of busy_page start] instant
  obtain n t where ts: "tick_state busy_page (clock start) n start = Some t"
    and ex: "if clock t - clock start > max_wait_time
      then wait_for_loading busy_page (clock start) start = (Inr (), t)
      else case loading_scan busy_page loading_selectors t of
             (False, t') \<Rightarrow> wait_for_loading busy_page (clock start) start = (Inr (), t')
           | (True, t') \<Rightarrow>
               (\<exists>e t''. wait_for_timeout busy_page 3000 t' = (Inl e, t'') \<and>
                  wait_for_loading busy_page (clock start) start = (Inl e, t''))"
    and bound: "clock (snd (wait_for_loading busy_page (clock start) start)) - clock start
     \<le> max_wait_time + 3000"
    by blast
  have "clock t - clock start > max_wait_time"
  proof (rule ccontr)
    assume "\<not> clock t - clock start > max_wait_time"
    with ex scan [of t] wait show False
      by (auto split: prod.splits bool.splits) (metis fst_conv sum.distinct(1))
  qed
  with ts ex bound show ?thesis by auto
qed

text \<open>
  C3 as stated fails on a page whose indicator never goes away, with calls that take no
  time: at 120000 ms the ceiling is not exceeded, the loop pauses once more and leaves at
  123000 ms, three seconds past the ceiling.
\<close>

theorem busy_wait_overshoots:
  "clock (snd (wait_for_loading busy_page (clock start) start)) - clock start = 123000 \<and>
   \<not> 123000 \<le> max_wait_time"
  by code_simp


section \<open>Properties of the orchestrator\<close>

lemma session_raises:
  assumes launch: "steps [page_do env LaunchBrowser, page_do env NewContext, page_do env NewPage] s1
      = (Inr (), s2)"
    and body: "browser_steps lower env config brand_website timeout s2 = (Inl e, s3)"
  shows "\<exists>e' s4. browser_session lower env config brand_website timeout s1 = (Inl e', s4) \<and>
           trace s4 = trace s3 @ [Screenshot ''error_screenshot.png'', CloseBrowser] \<and>
           (e' = e \<or> e' = Raised (Screenshot ''error_screenshot.png'') \<or> e' = Raised CloseBrowser) \<and>
           (fst (page_do env (Screenshot ''error_screenshot.png'') s3) = Inr () \<and>
            fst (page_do env CloseBrowser
                   (snd (page_do env (Screenshot ''error_screenshot.png'') s3))) = Inr ()
            \<longrightarrow> e' = e)"
proof -
  obtain r1 t1 where shot: "page_do env (Screenshot ''error_screenshot.png'') s3 = (r1, t1)"
    by (cases "page_do env (Screenshot ''error_screenshot.png'') s3")
  obtain r2 t2 where close: "page_do env CloseBrowser t1 = (r2, t2)"
    by (cases "page_do env CloseBrowser t1")
  have tr: "trace t2 = trace s3 @ [Screenshot ''error_screenshot.png'', CloseBrowser]"
    using page_do_trace [OF shot] page_do_trace [OF close] by simp
  have handler: "try_except (browser_steps lower env config brand_website timeout)
      (\<lambda>e. bind (page_do env (Screenshot ''error_screenshot.png'')) (\<lambda>u. throw e)) s2
      = (Inl (case r1 of Inl x \<Rightarrow> x | Inr u \<Rightarrow> e), t1)"
    using body shot by (cases r1) (simp_all add: try_except_def bind_def throw_def)
  have session: "browser_session lower env config brand_website timeout s1
      = (Inl (case r2 of Inl y \<Rightarrow> y | Inr u \<Rightarrow> (case r1 of Inl x \<Rightarrow> x | Inr u \<Rightarrow> e)), t2)"
    unfolding browser_session_def using launch handler close
    by (cases r2) (simp_all add: bind_def try_finally_def)
  show ?thesis
  proof (cases r2)
    case (Inl y)
    with page_do_raised [of env CloseBrowser t1 y t2] close have "y = Raised CloseBrowser" by simp
    with Inl session tr shot close show ?thesis by simp
  next
    case r2: (Inr u)
    show ?thesis
    proof (cases r1)
      case (Inl x)
      with page_do_raised [of env "Screenshot ''error_screenshot.png''" s3 x t1] shot
      have "x = Raised (Screenshot ''error_screenshot.png'')" by simp
      with Inl r2 session tr shot close show ?thesis by simp
    next
      case (Inr v)
      with r2 session tr shot close show ?thesis by simp
    qed
  qed
qed

lemma website_failure_steps:
  assumes "navigate env timeout s2 = (Inr (), s3)"
    and "fill_website_field env brand_website s3 = (Inr False, s4)"
  shows "browser_steps lower env config brand_website timeout s2
      = (Inl (Failure ''Failed to fill website field''), s4)"
  using assms by (simp add: browser_steps_def bind_def throw_def)

text \<open>
  C4. When the run has reached the website fill and the filler returns false, the run
  ends with an exception: after the filler's last call the only calls made are the error
  screenshot and the closing of the browser (so no LLM call, no industry or location fill
  and no submission), no file is written, and the exception is
  \<open>Failed to fill website field\<close> unless the screenshot or the closing raises itself.
\<close>

theorem website_failure_aborts:
  assumes "page_do env (Makedirs (dirname output_csv)) s = (Inr (), s0)"
    and "config ''brand_website'' = Some (CStr brand_website)" and "brand_website \<noteq> []"
    and "clean_url env brand_website s0 = (Inr (), s1)"
    and "steps [page_do env LaunchBrowser, page_do env NewContext, page_do env NewPage] s1
      = (Inr (), s2)"
    and "navigate env timeout s2 = (Inr (), s3)"
    and "fill_website_field env brand_website s3 = (Inr False, s4)"
  shows "\<exists>e s5. collect_keywords lower env config output_csv timeout fs s = (Inl e, fs, s5) \<and>
           trace s5 = trace s4 @ [Screenshot ''error_screenshot.png'', CloseBrowser] \<and>
           (e = Failure ''Failed to fill website field'' \<or>
            e = Raised (Screenshot ''error_screenshot.png'') \<or> e = Raised CloseBrowser) \<and>
           (fst (page_do env (Screenshot ''error_screenshot.png'') s4) = Inr () \<and>
            fst (page_do env CloseBrowser
                   (snd (page_do env (Screenshot ''error_screenshot.png'') s4))) = Inr ()
            \<longrightarrow> e = Failure ''Failed to fill website field'')"
proof -
  from session_raises [OF assms(5) website_failure_steps [OF assms(6,7)], where config = config and lower = lower]
  obtain e s5 where "browser_session lower env config brand_website timeout s1 = (Inl e, s5)"
    and rest: "trace s5 = trace s4 @ [Screenshot ''error_screenshot.png'', CloseBrowser]"
      "e = Failure ''Failed to fill website field'' \<or>
       e = Raised (Screenshot ''error_screenshot.png'') \<or> e = Raised CloseBrowser"
      "fst (page_do env (Screenshot ''error_screenshot.png'') s4) = Inr () \<and>
       fst (page_do env CloseBrowser
              (snd (page_do env (Screenshot ''error_screenshot.png'') s4))) = Inr ()
       \<longrightarrow> e = Failure ''Failed to fill website field''"
    by blast
  with assms(1-4) have "collect_keywords lower env config output_csv timeout fs s = (Inl e, fs, s5)"
    by (simp add: collect_keywords_def)
  with rest show ?thesis by blast
qed

theorem website_failure_aborts_witness:
  "fst (collect_keywords ascii_lower blank_site shoes_config ''data/wordstream_output.csv'' 60000 no_files start)
     = Inl (Failure ''Failed to fill website field'') \<and>
   GetLLM \<notin> set (trace (snd (snd
     (collect_keywords ascii_lower blank_site shoes_config ''data/wordstream_output.csv'' 60000 no_files start))))"
proof -
  define s0 where "s0 = snd (page_do blank_site (Makedirs (dirname ''data/wordstream_output.csv'')) start)"
  define s1 where "s1 = snd (clean_url blank_site ''https://www.shoes.example'' s0)"
  define s2 where "s2 = snd (steps [page_do blank_site LaunchBrowser, page_do blank_site NewContext,
      page_do blank_site NewPage] s1)"
  define s3 where "s3 = snd (navigate blank_site 60000 s2)"
  define s4 where "s4 = snd (fill_website_field blank_site ''https://www.shoes.example'' s3)"
  have h1: "page_do blank_site (Makedirs (dirname ''data/wordstream_output.csv'')) start = (Inr (), s0)"
    unfolding s0_def by code_simp
  have h2: "shoes_config ''brand_website'' = Some (CStr ''https://www.shoes.example'')"
    by (simp add: shoes_config_def)
  have h3: "''https://www.shoes.example'' \<noteq> []" by simp
  have h4: "clean_url blank_site ''https://www.shoes.example'' s0 = (Inr (), s1)"
    unfolding s1_def s0_def by code_simp
  have h5: "steps [page_do blank_site LaunchBrowser, page_do blank_site NewContext,
      page_do blank_site NewPage] s1 = (Inr (), s2)"
    unfolding s2_def s1_def s0_def by code_simp
  have h6: "navigate blank_site 60000 s2 = (Inr (), s3)"
    unfolding s3_def s2_def s1_def s0_def by code_simp
  have h7: "fill_website_field blank_site ''https://www.shoes.example'' s3 = (Inr False, s4)"
    unfolding s4_def s3_def s2_def s1_def s0_def by code_simp
  have ok: "fst (page_do blank_site (Screenshot ''error_screenshot.png'') s4) = Inr () \<and>
      fst (page_do blank_site CloseBrowser
             (snd (page_do blank_site (Screenshot ''error_screenshot.png'') s4))) = Inr ()"
    by (simp add: page_do_def call_def blank_site_def split: prod.splits)
  have quiet: "GetLLM \<notin> set (trace s4)"
    unfolding s4_def s3_def s2_def s1_def s0_def by code_simp
  from website_failure_aborts [where lower = ascii_lower and env = blank_site and config = shoes_config
      and fs = no_files, OF h1 h2 h3 h4 h5 h6 h7] ok
  obtain s5 where "collect_keywords ascii_lower blank_site shoes_config ''data/wordstream_output.csv'' 60000
        no_files start = (Inl (Failure ''Failed to fill website field''), no_files, s5)"
    and "trace s5 = trace s4 @ [Screenshot ''error_screenshot.png'', CloseBrowser]"
    by blast
  with quiet show ?thesis by simp
qed

text \<open>
  C10. A run that ends with an exception leaves the files as they were. In particular,
  when the body of the \<open>try\<close> (navigation, fills, submission, waiting, extraction)
  raises, the error screenshot is taken, the browser is closed and an exception reaches
  the caller of \<open>collect_keywords\<close>: the one of the body, unless the screenshot or the
  closing raises itself; the result file is written only after a browser phase that
  returned its keywords.
\<close>

theorem failed_run_writes_nothing:
  "(collect_keywords lower env config output_csv timeout fs s = (Inl e, fs', s') \<longrightarrow> fs' = fs) \<and>
   (page_do env (Makedirs (dirname output_csv)) s = (Inr (), s0) \<and>
    config ''brand_website'' = Some (CStr brand_website) \<and> brand_website \<noteq> [] \<and>
    clean_url env brand_website s0 = (Inr (), s1) \<and>
    steps [page_do env LaunchBrowser, page_do env NewContext, page_do env NewPage] s1
      = (Inr (), s2) \<and>
    browser_steps lower env config brand_website timeout s2 = (Inl e0, s3)
    \<longrightarrow> (\<exists>e1 s4. collect_keywords lower env config output_csv timeout fs s = (Inl e1, fs, s4) \<and>
           trace s4 = trace s3 @ [Screenshot ''error_screenshot.png'', CloseBrowser] \<and>
           (fst (page_do env (Screenshot ''error_screenshot.png'') s3) = Inr () \<and>
            fst (page_do env CloseBrowser
                   (snd (page_do env (Screenshot ''error_screenshot.png'') s3))) = Inr ()
            \<longrightarrow> e1 = e0)))"
proof (intro conjI impI)
  assume "collect_keywords lower env config output_csv timeout fs s = (Inl e, fs', s')"
  then show "fs' = fs"
    by (auto simp: collect_keywords_def
        split: prod.splits sum.splits option.splits cval.splits if_splits)
next
  assume h: "page_do env (Makedirs (dirname output_csv)) s = (Inr (), s0) \<and>
    config ''brand_website'' = Some (CStr brand_website) \<and> brand_website \<noteq> [] \<and>
    clean_url env brand_website s0 = (Inr (), s1) \<and>
    steps [page_do env LaunchBrowser, page_do env NewContext, page_do env NewPage] s1
      = (Inr (), s2) \<and>
    browser_steps lower env config brand_website timeout s2 = (Inl e0, s3)"
  then have launch: "steps [page_do env LaunchBrowser, page_do env NewContext, page_do env NewPage] s1
      = (Inr (), s2)"
    and body: "browser_steps lower env config brand_website timeout s2 = (Inl e0, s3)" by simp_all
  from session_raises [OF launch body]
  obtain e1 s4 where "browser_session lower env config brand_website timeout s1 = (Inl e1, s4)"
    and rest: "trace s4 = trace s3 @ [Screenshot ''error_screenshot.png'', CloseBrowser]"
      "fst (page_do env (Screenshot ''error_screenshot.png'') s3) = Inr () \<and>
       fst (page_do env CloseBrowser
              (snd (page_do env (Screenshot ''error_screenshot.png'') s3))) = Inr ()
       \<longrightarrow> e1 = e0"
    by blast
  with h have "collect_keywords lower env config output_csv timeout fs s = (Inl e1, fs, s4)"
    by (simp add: collect_keywords_def)
  with rest show "\<exists>e1 s4. collect_keywords lower env config output_csv timeout fs s = (Inl e1, fs, s4) \<and>
           trace s4 = trace s3 @ [Screenshot ''error_screenshot.png'', CloseBrowser] \<and>
           (fst (page_do env (Screenshot ''error_screenshot.png'') s3) = Inr () \<and>
            fst (page_do env CloseBrowser
                   (snd (page_do env (Screenshot ''error_screenshot.png'') s3))) = Inr ()
            \<longrightarrow> e1 = e0)" by blast
qed

theorem failed_run_writes_nothing_witness:
  "fst (collect_keywords ascii_lower offline_site shoes_config ''data/wordstream_output.csv'' 60000 no_files start)
     = Inl (Raised (Goto ''https://tools.wordstream.com/fkt'' 60000)) \<and>
   fst (snd (collect_keywords ascii_lower offline_site shoes_config ''data/wordstream_output.csv'' 60000
     no_files start)) = no_files"
proof -
  define s0 where "s0 = snd (page_do offline_site (Makedirs (dirname ''data/wordstream_output.csv'')) start)"
  define s1 where "s1 = snd (clean_url offline_site ''https://www.shoes.example'' s0)"
  define s2 where "s2 = snd (steps [page_do offline_site LaunchBrowser, page_do offline_site NewContext,
      page_do offline_site NewPage] s1)"
  define s3 where "s3 = snd (browser_steps ascii_lower offline_site shoes_config ''https://www.shoes.example'' 60000 s2)"
  have h1: "page_do offline_site (Makedirs (dirname ''data/wordstream_output.csv'')) start = (Inr (), s0)"
    unfolding s0_def by code_simp
  have h2: "shoes_config ''brand_website'' = Some (CStr ''https://www.shoes.example'')"
    by (simp add: shoes_config_def)
  have h3: "''https://www.shoes.example'' \<noteq> []" by simp
  have h4: "clean_url offline_site ''https://www.shoes.example'' s0 = (Inr (), s1)"
    unfolding s1_def s0_def by code_simp
  have h5: "steps [page_do offline_site LaunchBrowser, page_do offline_site NewContext,
      page_do offline_site NewPage] s1 = (Inr (), s2)"
    unfolding s2_def s1_def s0_def by code_simp
  have h6: "browser_steps ascii_lower offline_site shoes_config ''https://www.shoes.example'' 60000 s2
      = (Inl (Raised (Goto ''https://tools.wordstream.com/fkt'' 60000)), s3)"
    unfolding s3_def s2_def s1_def s0_def by code_simp
  have ok: "fst (page_do offline_site (Screenshot ''error_screenshot.png'') s3) = Inr () \<and>
      fst (page_do offline_site CloseBrowser
             (snd (page_do offline_site (Screenshot ''error_screenshot.png'') s3))) = Inr ()"
    by (simp add: page_do_def call_def offline_site_def split: prod.splits)
  note inst = failed_run_writes_nothing [where lower = ascii_lower and env = offline_site and config = shoes_config
      and output_csv = "''data/wordstream_output.csv''" and timeout = 60000 and fs = no_files
      and s = start and ?s0.0 = s0 and brand_website = "''https://www.shoes.example''"
      and ?s1.0 = s1 and ?s2.0 = s2
      and ?e0.0 = "Raised (Goto ''https://tools.wordstream.com/fkt'' 60000)" and ?s3.0 = s3]
  from inst h1 h2 h3 h4 h5 h6 ok
  obtain s4 where "collect_keywords ascii_lower offline_site shoes_config ''data/wordstream_output.csv'' 60000
      no_files start = (Inl (Raised (Goto ''https://tools.wordstream.com/fkt'' 60000)), no_files, s4)"
    by blast
  then show ?thesis by simp
qed




end
